theory Spec2Isabelle
  imports Main "HOL-Library.Sublist"
begin

section \<open>JavaScript strings and values\<close>

text \<open>
  Strings are lists of code units, here those below 256 (\<^typ>\<open>string\<close>); a value of type
  \<^verbatim>\<open>string | undefined\<close> is a \<^typ>\<open>string option\<close>, with \<^term>\<open>None\<close> for
  \<^verbatim>\<open>undefined\<close>.
\<close>

definition js_str :: "string option \<Rightarrow> string" where
  \<comment> \<open>conversion to string inside a template literal or under \<^verbatim>\<open>+\<close>\<close>
  "js_str v = (case v of None \<Rightarrow> ''undefined'' | Some s \<Rightarrow> s)"

definition falsy :: "string option \<Rightarrow> bool" where
  \<comment> \<open>\<^verbatim>\<open>!v\<close> for \<^verbatim>\<open>string | undefined\<close>: undefined and the empty string\<close>
  "falsy v = (case v of None \<Rightarrow> True | Some s \<Rightarrow> s = [])"

definition or_else :: "string option \<Rightarrow> string \<Rightarrow> string" where
  \<comment> \<open>\<^verbatim>\<open>v || d\<close>\<close>
  "or_else v d = (case v of None \<Rightarrow> d | Some s \<Rightarrow> if s = [] then d else s)"

definition nullish_else :: "string option \<Rightarrow> string \<Rightarrow> string" where
  \<comment> \<open>\<^verbatim>\<open>v ?? d\<close>\<close>
  "nullish_else v d = (case v of None \<Rightarrow> d | Some s \<Rightarrow> s)"

record js_error =
  err_code :: "string option"
  err_info :: "string option"
  err_name :: "string option"

definition TypeError :: js_error where
  \<comment> \<open>thrown by a property access on \<^verbatim>\<open>undefined\<close>; it has a name, no code and no info\<close>
  "TypeError = \<lparr>err_code = None, err_info = None, err_name = Some ''TypeError''\<rparr>"




definition prop_of :: "'a option \<Rightarrow> ('a \<Rightarrow> 'b) \<Rightarrow> js_error + 'b" where
  \<comment> \<open>\<^verbatim>\<open>v.f\<close> and \<^verbatim>\<open>v[0]\<close>: throws when \<^verbatim>\<open>v\<close> is undefined\<close>
  "prop_of v f = (case v of None \<Rightarrow> Inl TypeError | Some x \<Rightarrow> Inr (f x))"

definition opt_chain :: "'a option \<Rightarrow> ('a \<Rightarrow> js_error + 'b option) \<Rightarrow> js_error + 'b option" where
  \<comment> \<open>\<^verbatim>\<open>v?.rest\<close>: the whole rest of the chain is skipped when \<^verbatim>\<open>v\<close> is undefined\<close>
  "opt_chain v rest = (case v of None \<Rightarrow> Inr None | Some x \<Rightarrow> rest x)"

definition opt_member :: "'a option \<Rightarrow> ('a \<Rightarrow> 'b option) \<Rightarrow> 'b option" where
  \<comment> \<open>\<^verbatim>\<open>v?.f\<close> at the end of a chain\<close>
  "opt_member v f = (case v of None \<Rightarrow> None | Some x \<Rightarrow> f x)"

definition first :: "'a list \<Rightarrow> 'a option" where
  \<comment> \<open>\<^verbatim>\<open>xs[0]\<close> on an array: undefined when the array is empty\<close>
  "first xs = (case xs of [] \<Rightarrow> None | x # _ \<Rightarrow> Some x)"

definition and_then :: "'e + 'a \<Rightarrow> ('a \<Rightarrow> 'e + 'b) \<Rightarrow> 'e + 'b" where
  \<comment> \<open>sequencing: an exception of the first step ends the evaluation\<close>
  "and_then m k = (case m of Inl e \<Rightarrow> Inl e | Inr x \<Rightarrow> k x)"

subsection \<open>\<^verbatim>\<open>String.prototype.replace\<close> with a string pattern\<close>

fun split_first :: "string \<Rightarrow> string \<Rightarrow> (string \<times> string) option" where
  \<comment> \<open>the text before and after the first occurrence of the pattern\<close>
  "split_first pat [] = (if pat = [] then Some ([], []) else None)"
| "split_first pat (c # cs) =
     (if prefix pat (c # cs) then Some ([], drop (length pat) (c # cs))
      else map_option (\<lambda>(a, b). (c # a, b)) (split_first pat cs))"

fun getSubstitution :: "string \<Rightarrow> string \<Rightarrow> string \<Rightarrow> string \<Rightarrow> string" where
  \<comment> \<open>the replacement patterns that exist without capture groups:
      \<^verbatim>\<open>$$\<close>, \<^verbatim>\<open>$&\<close>, \<^verbatim>\<open>$`\<close> and \<^verbatim>\<open>$'\<close>\<close>
  "getSubstitution matched pre post [] = []"
| "getSubstitution matched pre post [c] = [c]"
| "getSubstitution matched pre post (c # d # r) =
     (if c = CHR ''$'' \<and> d = CHR ''$'' then CHR ''$'' # getSubstitution matched pre post r
      else if c = CHR ''$'' \<and> d = CHR ''&'' then matched @ getSubstitution matched pre post r
      else if c = CHR ''$'' \<and> d = CHR 0x60 then pre @ getSubstitution matched pre post r
      else if c = CHR ''$'' \<and> d = CHR 0x27 then post @ getSubstitution matched pre post r
      else c # getSubstitution matched pre post (d # r))"

definition js_replace :: "string \<Rightarrow> string \<Rightarrow> string \<Rightarrow> string" where
  \<comment> \<open>\<^verbatim>\<open>s.replace(pat, rep)\<close>: only the first occurrence is replaced\<close>
  "js_replace s pat rep =
     (case split_first pat s of
        None \<Rightarrow> s
      | Some (pre, post) \<Rightarrow> pre @ getSubstitution pat pre post rep @ post)"

subsection \<open>The regular expression of \<^verbatim>\<open>getPreview\<close>\<close>

text \<open>
  The pattern of \<^verbatim>\<open>getPreview\<close> is a sequence of atoms: the literal \<^verbatim>\<open><%--\<close>,
  a greedy run of whitespace, the literal \<^verbatim>\<open>[PAGE_INFO]\<close>, a lazy run of any
  code units (line breaks included), the literal \<^verbatim>\<open>[END_PAGE_INFO]\<close>, a greedy
  run of whitespace, the literal \<^verbatim>\<open>--%>\<close> and a last greedy run of whitespace.
  A backtracking matcher tries the alternatives of each atom in its order of
  preference; \<open>match_seq\<close> lists what is left of the input after every successful
  match, in that order, so the head of the list is the match the engine reports.
\<close>

definition is_space :: "char \<Rightarrow> bool" where
  \<comment> \<open>the whitespace class of regular expressions, for the code units below 256\<close>
  "is_space c = (of_char c \<in> {9, 10, 11, 12, 13, 32, 160 :: nat})"

fun space_star :: "string \<Rightarrow> string list" where
  \<comment> \<open>a greedy run of whitespace: the longest run first\<close>
  "space_star [] = [[]]"
| "space_star (c # cs) = (if is_space c then space_star cs @ [c # cs] else [c # cs])"

fun any_lazy :: "string \<Rightarrow> string list" where
  \<comment> \<open>a lazy run of any code units: the shortest run first\<close>
  "any_lazy [] = [[]]"
| "any_lazy (c # cs) = (c # cs) # any_lazy cs"

datatype atom = Lit string | SpaceStar | AnyLazy

fun match_atom :: "atom \<Rightarrow> string \<Rightarrow> string list" where
  "match_atom (Lit l) s = (if prefix l s then [drop (length l) s] else [])"
| "match_atom SpaceStar s = space_star s"
| "match_atom AnyLazy s = any_lazy s"

fun match_seq :: "atom list \<Rightarrow> string \<Rightarrow> string list" where
  "match_seq [] s = [s]"
| "match_seq (a # as) s = concat (map (match_seq as) (match_atom a s))"

definition PAGE_INFO_regex :: "atom list" where
  "PAGE_INFO_regex =
     [Lit ''<%--'', SpaceStar, Lit ''[PAGE_INFO]'', AnyLazy,
      Lit ''[END_PAGE_INFO]'', SpaceStar, Lit ''--%>'', SpaceStar]"

fun regex_remove_first :: "atom list \<Rightarrow> string \<Rightarrow> string" where
  \<comment> \<open>\<^verbatim>\<open>s.replace(r, "")\<close> without the \<^verbatim>\<open>g\<close> flag: the leftmost match is removed\<close>
  "regex_remove_first r [] = (case match_seq r [] of rest # _ \<Rightarrow> rest | [] \<Rightarrow> [])"
| "regex_remove_first r (c # cs) =
     (case match_seq r (c # cs) of rest # _ \<Rightarrow> rest | [] \<Rightarrow> c # regex_remove_first r cs)"

text \<open>
  The page information block in words, for comparison with the matcher: the
  opening \<^verbatim>\<open><%--\<close>, whitespace, \<^verbatim>\<open>[PAGE_INFO]\<close>, any text, and the closing
  \<^verbatim>\<open>[END_PAGE_INFO]\<close>, whitespace, \<^verbatim>\<open>--%>\<close>.
\<close>

definition spaces :: "string \<Rightarrow> bool" where
  "spaces ws = list_all is_space ws"

definition block_end_at :: "string \<Rightarrow> bool" where
  \<comment> \<open>the text starts with the closing of a block\<close>
  "block_end_at t = (\<exists>ws rest. spaces ws \<and> t = ''[END_PAGE_INFO]'' @ ws @ ''--%>'' @ rest)"

definition block_at :: "string \<Rightarrow> bool" where
  \<comment> \<open>the text starts with a block\<close>
  "block_at t =
     (\<exists>ws mid rest. spaces ws \<and> block_end_at rest \<and> t = ''<%--'' @ ws @ ''[PAGE_INFO]'' @ mid @ rest)"

section \<open>The decoded responses\<close>

text \<open>
  \<^verbatim>\<open>GetViewResult\<close> is declared in \<^verbatim>\<open>interface_definition/getViewInterface\<close>; its
  shape is read off the accesses of \<^verbatim>\<open>getView\<close> and \<^verbatim>\<open>viewPage\<close>. Every node
  and every payload is optional.
\<close>

record Star =
  star :: "string option"

record Parse =
  parse_text :: "Star option"
  parse_headhtml :: "Star option"
  parse_categorieshtml :: "Star option"
  parse_displaytitle :: "string option"

record ApiError =
  api_code :: "string option"
  api_info :: "string option"

record GetViewResult =
  parse :: "Parse option"
  error :: "ApiError option"

datatype request_outcome =
    Rejected js_error
  | Resolved GetViewResult

section \<open>The editor, the panels and the effects\<close>

text \<open>
  The configuration section \<^verbatim>\<open>wikitext\<close>. A flag that is not set is false; a
  string setting that is not set reads as \<^verbatim>\<open>undefined\<close>.
\<close>

record Config =
  getCss :: bool
  enableJavascript :: bool
  redirects :: bool
  transferProtocol :: "string option"
  articlePath :: "string option"
  apiPath :: "string option"
  previewCssStyle :: "string option"

text \<open>
  The request parameters of \<^verbatim>\<open>view.ts\<close>. The enumerations come from \<^verbatim>\<open>./args\<close>;
  \<^verbatim>\<open>alterNativeValues\<close> is kept as the list of its arguments.
\<close>

datatype Action = Action_parse

datatype Prop = Prop_text | Prop_displayTitle | Prop_categoriesHTML | Prop_headHTML

datatype ContextModel = ContextModel_wikitext

record Args =
  arg_action :: Action
  arg_text :: "string option"
  arg_page :: "string option"
  arg_prop :: "Prop option list"
  arg_contentmodel :: "ContextModel option"
  arg_pst :: "string option"
  arg_disableeditsection :: "string option"
  arg_redirects :: "string option"

text \<open>The query of \<^verbatim>\<open>wmcore.ts\<close>, with the enumerations of \<^verbatim>\<open>./mediawiki\<close>.\<close>

datatype wm_action = action_query | action_parse

datatype wm_format = format_xml | format_json

datatype wm_prop = prop_reVisions | prop_text | prop_displayTitle | prop_headHTML

datatype wm_rvprop = rvprop_content | rvprop_ids

record QueryInput =
  q_action :: wm_action
  q_format :: wm_format
  q_prop :: "wm_prop option list"
  q_rvprop :: "wm_rvprop option list"
  q_rvslots :: "string option"
  q_titles :: "string option"
  q_page :: "string option"
  q_redirects :: "string option"

record MWBot =
  apiUrl :: string

datatype ViewColumn = Beside | Active

record WebviewPanel =
  viewType :: string
  panel_title :: string
  panel_html :: string
  viewColumn :: ViewColumn
  enableScripts :: bool
  onDidDispose_registered :: bool
  disposed :: bool

text \<open>
  Every effect on the editor and every request is appended to a trace, in the
  order in which the code performs it. A panel is named by its index in the list
  of the panels created so far.
\<close>

datatype event =
    CreateWebviewPanel nat string string
  | SetHtml nat string
  | SetTitle nat string
  | BotRequest MWBot Args
  | SendRequest QueryInput
  | BotGetEditToken
  | BotEdit string string string
  | ShowErrorMessage string
  | ShowWarningMessage string
  | ShowInformationMessage string
  | OpenTextDocument "string option" "string option"

record state =
  panels :: "WebviewPanel list"
  previewCurrentPlanel :: "nat option"
  activeDocument :: "string option"
  bot_ts :: "MWBot option"
  bot_wm :: "MWBot option"
  pageName :: "string option"
  trace :: "event list"

definition log :: "event \<Rightarrow> state \<Rightarrow> state" where
  "log e s = s\<lparr>trace := trace s @ [e]\<rparr>"

definition update_panel :: "nat \<Rightarrow> (WebviewPanel \<Rightarrow> WebviewPanel) \<Rightarrow> state \<Rightarrow> state" where
  "update_panel p f s =
     (if p < length (panels s) then s\<lparr>panels := (panels s)[p := f (panels s ! p)]\<rparr> else s)"

definition createWebviewPanel ::
  "string \<Rightarrow> string \<Rightarrow> ViewColumn \<Rightarrow> bool \<Rightarrow> state \<Rightarrow> nat \<times> state" where
  "createWebviewPanel vt ttl col scripts s =
     (length (panels s),
      log (CreateWebviewPanel (length (panels s)) vt ttl)
        (s\<lparr>panels := panels s @
             [\<lparr>viewType = vt, panel_title = ttl, panel_html = [], viewColumn = col,
               enableScripts = scripts, onDidDispose_registered = False, disposed = False\<rparr>]\<rparr>))"

definition set_html :: "nat \<Rightarrow> string \<Rightarrow> state \<Rightarrow> state" where
  \<comment> \<open>\<^verbatim>\<open>panel.webview.html = h\<close>\<close>
  "set_html p h s = log (SetHtml p h) (update_panel p (\<lambda>w. w\<lparr>panel_html := h\<rparr>) s)"

definition set_title :: "nat \<Rightarrow> string \<Rightarrow> state \<Rightarrow> state" where
  \<comment> \<open>\<^verbatim>\<open>panel.title = t\<close>\<close>
  "set_title p t s = log (SetTitle p t) (update_panel p (\<lambda>w. w\<lparr>panel_title := t\<rparr>) s)"

definition dispose_panel :: "nat \<Rightarrow> state \<Rightarrow> state" where
  \<comment> \<open>the user closes panel \<open>p\<close>; the listener that \<^verbatim>\<open>getPreview\<close> registered with
      \<^verbatim>\<open>onDidDispose\<close> clears \<^verbatim>\<open>previewCurrentPlanel\<close>\<close>
  "dispose_panel p s =
     (if p < length (panels s) \<and> \<not> disposed (panels s ! p) then
        (let s1 = update_panel p (\<lambda>w. w\<lparr>disposed := True\<rparr>) s
         in if onDidDispose_registered (panels s ! p)
            then s1\<lparr>previewCurrentPlanel := None\<rparr> else s1)
      else s)"

section \<open>\<^verbatim>\<open>view.ts\<close>\<close>

definition showHtmlInfo :: "string \<Rightarrow> string" where
  "showHtmlInfo info = ''<!DOCTYPE html><html><body><h2>'' @ info @ ''</h2></body></html>''"

definition baseElem :: "string \<Rightarrow> string" where
  \<open>baseElem baseURI = ''<base href="'' @ baseURI @ ''" />"''\<close>

definition style :: "Config \<Rightarrow> string" where
  "style config = ''<style>'' @ js_str (previewCssStyle config) @ ''</style>''"

definition htmlHead :: "Config \<Rightarrow> string \<Rightarrow> Star option \<Rightarrow> string" where
  "htmlHead config baseURI hh =
     nullish_else
       (map_option (\<lambda>h. js_replace h ''<head>'' (''<head>'' @ baseElem baseURI @ style config))
          (opt_member hh star))
       (''<!DOCTYPE html><html><head>'' @ (baseElem baseURI @ style config) @ ''</head><body>'')"

definition htmlText :: "Star option \<Rightarrow> string" where
  "htmlText tx = or_else (opt_member tx star) []"

definition htmlCategories :: "Star option \<Rightarrow> string" where
  "htmlCategories cat =
     (if \<not> falsy (opt_member cat star) then ''<hr />'' @ js_str (opt_member cat star) else [])"

definition htmlEnd :: string where
  "htmlEnd = ''</body></html>''"

text \<open>
  The body of the \<^verbatim>\<open>try\<close> block after the request has resolved: \<open>Inl\<close> is an
  exception, \<open>Inr None\<close> the early return, \<open>Inr (Some (html, title))\<close> the two
  values written to the panel.
\<close>

definition getView_render ::
  "Config \<Rightarrow> string \<Rightarrow> string \<Rightarrow> GetViewResult \<Rightarrow> js_error + (string \<times> string) option" where
  "getView_render config viewerTitle baseURI re =
     (if parse re = None then Inr None
      else
        and_then (prop_of (parse re) parse_headhtml) (\<lambda>hh.
        and_then (prop_of (parse re) parse_text) (\<lambda>tx.
        and_then (prop_of (parse re) parse_categorieshtml) (\<lambda>cat.
        and_then (prop_of (parse re) parse_displaytitle) (\<lambda>dt.
          Inr (Some (htmlHead config baseURI hh @ htmlText tx @ htmlCategories cat @ htmlEnd,
                     viewerTitle @ '': '' @ js_str dt)))))))"

definition getView_try ::
  "Config \<Rightarrow> string \<Rightarrow> string \<Rightarrow> request_outcome \<Rightarrow> js_error + (string \<times> string) option" where
  \<comment> \<open>the \<^verbatim>\<open>try\<close> block from the \<^verbatim>\<open>await\<close> on: \<open>outcome\<close> is what \<^verbatim>\<open>tbot.request(args)\<close>
      and the conversion to \<^verbatim>\<open>GetViewResult\<close> give, a rejection or exception, or the
      decoded result\<close>
  "getView_try config viewerTitle baseURI outcome =
     (case outcome of
        Rejected e \<Rightarrow> Inl e
      | Resolved re \<Rightarrow> getView_render config viewerTitle baseURI re)"

datatype panel_arg = Panel nat | ViewType string

definition getView ::
  "panel_arg \<Rightarrow> string \<Rightarrow> Args \<Rightarrow> MWBot \<Rightarrow> string \<Rightarrow> Config \<Rightarrow> request_outcome \<Rightarrow> state \<Rightarrow> state" where
  "getView currentPlanel viewerTitle args tbot baseURI config outcome s =
     (let (p, s1) =
            (case currentPlanel of
               ViewType vt \<Rightarrow> createWebviewPanel vt viewerTitle Active (enableJavascript config) s
             | Panel q \<Rightarrow> (q, s));
          s2 = set_html p (showHtmlInfo ''Loading...'') s1;
          s3 = log (BotRequest tbot args) s2
      in case getView_try config viewerTitle baseURI outcome of
           Inr None \<Rightarrow> s3
         | Inr (Some (html, ttl)) \<Rightarrow> set_title p ttl (set_html p html s3)
         | Inl e \<Rightarrow>
             set_html p (showHtmlInfo ''Error'')
               (log (ShowErrorMessage
                      (''ErrorCode:'' @ js_str (err_code e) @ ''| ErrorInfo:'' @ js_str (err_info e)))
                  s3))"

definition getBot :: "Config \<Rightarrow> string option \<Rightarrow> state \<Rightarrow> MWBot option" where
  \<comment> \<open>\<open>host\<close> is the answer of the call of \<^verbatim>\<open>getHost\<close> inside \<^verbatim>\<open>getBot\<close>\<close>
  "getBot config host s =
     (case bot_ts s of
        Some b \<Rightarrow> Some b
      | None \<Rightarrow>
          if falsy host then None
          else Some \<lparr>apiUrl = js_str (transferProtocol config) @ js_str host @ js_str (apiPath config)\<rparr>)"

definition preview_args :: "Config \<Rightarrow> string \<Rightarrow> Args" where
  \<comment> \<open>\<^verbatim>\<open>args\<close> of \<^verbatim>\<open>getPreview\<close>\<close>
  "preview_args config sourceText =
     \<lparr>arg_action = Action_parse,
      arg_text = Some sourceText,
      arg_page = None,
      arg_prop = [Some Prop_text, Some Prop_displayTitle, Some Prop_categoriesHTML,
                  (if getCss config then Some Prop_headHTML else None)],
      arg_contentmodel = Some ContextModel_wikitext,
      arg_pst = Some ''whynot'',
      arg_disableeditsection = Some ''yes'',
      arg_redirects = None\<rparr>"

definition page_args :: "Config \<Rightarrow> string option \<Rightarrow> Args" where
  \<comment> \<open>\<^verbatim>\<open>args\<close> of \<^verbatim>\<open>getPageView\<close>\<close>
  "page_args config pageTitle =
     \<lparr>arg_action = Action_parse,
      arg_text = None,
      arg_page = pageTitle,
      arg_prop = [Some Prop_text, Some Prop_displayTitle, Some Prop_categoriesHTML,
                  (if getCss config then Some Prop_headHTML else None)],
      arg_contentmodel = None,
      arg_pst = None,
      arg_disableeditsection = None,
      arg_redirects = (if redirects config then Some ''true'' else None)\<rparr>"

definition baseHref :: "Config \<Rightarrow> string option \<Rightarrow> string" where
  "baseHref config host =
     js_str (transferProtocol config) @ js_str host @ js_str (articlePath config)"

definition ensure_panel :: "Config \<Rightarrow> state \<Rightarrow> nat \<times> state" where
  \<comment> \<open>\<^verbatim>\<open>if (!previewCurrentPlanel) { ... }\<close>: create the panel, keep it in
      \<^verbatim>\<open>previewCurrentPlanel\<close> and register the listener; the result is the panel that
      \<^verbatim>\<open>previewCurrentPlanel\<close> names afterwards\<close>
  "ensure_panel config s =
     (case previewCurrentPlanel s of
        None \<Rightarrow>
          (let (q, s') = createWebviewPanel ''previewer'' ''WikitextPreviewer'' Beside
                           (enableJavascript config) s
           in (q, (update_panel q (\<lambda>w. w\<lparr>onDidDispose_registered := True\<rparr>) s')
                    \<lparr>previewCurrentPlanel := Some q\<rparr>))
      | Some q \<Rightarrow> (q, s))"

definition getPreview ::
  "Config \<Rightarrow> string option \<Rightarrow> string option \<Rightarrow> request_outcome \<Rightarrow> state \<Rightarrow> state" where
  \<comment> \<open>\<open>host\<close> and \<open>botHost\<close> are the answers of the two calls of \<^verbatim>\<open>getHost\<close>\<close>
  "getPreview config host botHost outcome s =
     (if falsy host then s
      else if falsy (activeDocument s) then s
      else
        (let sourceText = regex_remove_first PAGE_INFO_regex (js_str (activeDocument s));
             args = preview_args config sourceText;
             viewerTitle = ''WikitextPreviewer'';
             (p, s1) = ensure_panel config s
         in case getBot config botHost s1 of
              None \<Rightarrow> s1
            | Some tbot \<Rightarrow>
                getView (Panel p) viewerTitle args tbot (baseHref config host) config outcome s1))"

definition getPageView ::
  "Config \<Rightarrow> string option \<Rightarrow> string option \<Rightarrow> string option \<Rightarrow> request_outcome \<Rightarrow> state \<Rightarrow> state" where
  \<comment> \<open>\<open>pageTitle\<close> is the answer of the input box\<close>
  "getPageView config host pageTitle botHost outcome s =
     (if falsy host then s
      else if falsy pageTitle then s
      else
        (let args = page_args config pageTitle
         in case getBot config botHost s of
              None \<Rightarrow> s
            | Some tbot \<Rightarrow>
                getView (ViewType ''pageViewer'') ''WikiViewer'' args tbot (baseHref config host)
                  config outcome s))"

section \<open>\<^verbatim>\<open>wmcore.ts\<close>\<close>

text \<open>
  \<^verbatim>\<open>ReadPageResult\<close> is declared in \<^verbatim>\<open>interface_definition/readPageInterface\<close>;
  its shape is read off the accesses of \<^verbatim>\<open>readPage\<close>. It is the XML of the
  answer: child elements are arrays, the attributes of an element are under
  \<^verbatim>\<open>$\<close>, its text under \<^verbatim>\<open>_\<close>.
\<close>

record InterwikiAttr =
  iw_title :: "string option"
  iw_iw :: "string option"

record InterwikiI =
  i_dollar :: "InterwikiAttr option"

record Interwiki =
  interwiki_i :: "InterwikiI list option"

record FromTo =
  ft_from :: "string option"
  ft_to :: "string option"

record NormalizedN =
  n_dollar :: "FromTo option"

record Normalized =
  normalized_n :: "NormalizedN list option"

record RedirectsR =
  r_dollar :: "FromTo option"

record Redirects =
  redirects_r :: "RedirectsR list option"

record SlotAttr =
  slot_contentmodel :: "string option"

record Slot =
  slot_content :: "string option"
  slot_dollar :: "SlotAttr option"

record Slots =
  slots_slot :: "Slot list option"

record Rev =
  rev_slots :: "Slots list option"

record Revisions =
  revisions_rev :: "Rev list option"

record PageAttr =
  page_title :: "string option"
  page_missing :: "string option"
  page_invalid :: "string option"
  page_invalidreason :: "string option"
  page_pageid :: "string option"

record Page =
  page_dollar :: "PageAttr option"
  page_revisions :: "Revisions list option"

record Pages =
  pages_page :: "Page list option"

record Query =
  query_interwiki :: "Interwiki list option"
  query_pages :: "Pages list option"
  query_normalized :: "Normalized list option"
  query_redirects :: "Redirects list option"

record Api =
  api_query :: "Query list option"

record ReadPageResult =
  api :: "Api option"

text \<open>
  What \<^verbatim>\<open>sendRequest\<close> does with the callback: it never calls it, or it calls
  it with a response that ends with a body (here already parsed and converted)
  or fails with an error of some name.
\<close>

datatype 'r incoming = NoCallback | End 'r | ErrorEvent string

definition query0 :: "ReadPageResult \<Rightarrow> js_error + Query option" where
  \<comment> \<open>\<^verbatim>\<open>re.api.query[0]\<close>\<close>
  "query0 re = and_then (prop_of (api re) api_query) (\<lambda>qs. prop_of qs first)"

definition page0 :: "ReadPageResult \<Rightarrow> js_error + Page option" where
  \<comment> \<open>\<^verbatim>\<open>re.api.query[0].pages[0].page[0]\<close>\<close>
  "page0 re =
     and_then (query0 re) (\<lambda>q.
     and_then (prop_of q query_pages) (\<lambda>ps.
     and_then (prop_of ps first) (\<lambda>p.
     and_then (prop_of p pages_page) (\<lambda>pg. prop_of pg first))))"

definition page_attr :: "ReadPageResult \<Rightarrow> (PageAttr \<Rightarrow> string option) \<Rightarrow> js_error + string option" where
  \<comment> \<open>\<^verbatim>\<open>re.api.query[0].pages[0].page[0].$?.f\<close>\<close>
  "page_attr re f =
     and_then (page0 re) (\<lambda>p.
     and_then (prop_of p page_dollar) (\<lambda>d. Inr (opt_member d f)))"

definition interwiki_attr ::
  "ReadPageResult \<Rightarrow> (InterwikiAttr \<Rightarrow> string option) \<Rightarrow> js_error + string option" where
  \<comment> \<open>\<^verbatim>\<open>re.api.query[0].interwiki?.[0].i?.[0].$?.f\<close>\<close>
  "interwiki_attr re f =
     and_then (query0 re) (\<lambda>q.
     and_then (prop_of q query_interwiki) (\<lambda>iw.
     opt_chain iw (\<lambda>iws.
     and_then (prop_of (first iws) interwiki_i) (\<lambda>i.
     opt_chain i (\<lambda>is.
     and_then (prop_of (first is) i_dollar) (\<lambda>d. Inr (opt_member d f)))))))"

definition slot0_then ::
  "ReadPageResult \<Rightarrow> (Slot option \<Rightarrow> js_error + string option) \<Rightarrow> js_error + string option" where
  \<comment> \<open>\<^verbatim>\<open>re.api.query[0].pages[0].page[0].revisions?.[0].rev?.[0].slots?.[0].slot?.[0]\<close>
      followed by the rest of the chain\<close>
  "slot0_then re rest =
     and_then (page0 re) (\<lambda>p.
     and_then (prop_of p page_revisions) (\<lambda>rv.
     opt_chain rv (\<lambda>rvs.
     and_then (prop_of (first rvs) revisions_rev) (\<lambda>r.
     opt_chain r (\<lambda>rs.
     and_then (prop_of (first rs) rev_slots) (\<lambda>sl.
     opt_chain sl (\<lambda>sls.
     and_then (prop_of (first sls) slots_slot) (\<lambda>st.
     opt_chain st (\<lambda>sts. rest (first sts))))))))))"

definition wikiNormalized :: "ReadPageResult \<Rightarrow> js_error + FromTo option" where
  \<comment> \<open>\<^verbatim>\<open>re.api.query[0].normalized?.[0].n?.[0].$\<close>\<close>
  "wikiNormalized re =
     and_then (query0 re) (\<lambda>q.
     and_then (prop_of q query_normalized) (\<lambda>n.
     opt_chain n (\<lambda>ns.
     and_then (prop_of (first ns) normalized_n) (\<lambda>nn.
     opt_chain nn (\<lambda>nns. prop_of (first nns) n_dollar)))))"

definition wikiRedirect :: "ReadPageResult \<Rightarrow> js_error + FromTo option" where
  \<comment> \<open>\<^verbatim>\<open>re.api.query[0].redirects?.[0].r?.[0].$\<close>\<close>
  "wikiRedirect re =
     and_then (query0 re) (\<lambda>q.
     and_then (prop_of q query_redirects) (\<lambda>n.
     opt_chain n (\<lambda>ns.
     and_then (prop_of (first ns) redirects_r) (\<lambda>rr.
     opt_chain rr (\<lambda>rrs. prop_of (first rrs) r_dollar)))))"

definition readPage_notExist :: "string option \<Rightarrow> ReadPageResult \<Rightarrow> state \<Rightarrow> js_error + state" where
  \<comment> \<open>the branch of a missing or invalid page; \<^verbatim>\<open>+\<close> binds tighter than \<^verbatim>\<open>||\<close>\<close>
  \<open>readPage_notExist wikiTitle re s =
     and_then (page_attr re page_invalidreason) (\<lambda>reason.
       Inr (log (ShowWarningMessage
                  (or_else
                     (Some (''The page "'' @ js_str wikiTitle @
                            ''" you are looking for does not exist.'' @ js_str reason))
                     []))
              s))\<close>

definition readPage_show :: "string option \<Rightarrow> ReadPageResult \<Rightarrow> state \<Rightarrow> js_error + state" where
  \<comment> \<open>the page exists: open it as a document, remember its name, show the information\<close>
  \<open>readPage_show wikiTitle re s =
     and_then (slot0_then re (\<lambda>s0. prop_of s0 slot_content)) (\<lambda>wikiContent.
     and_then (slot0_then re (\<lambda>s0.
        and_then (prop_of s0 slot_dollar) (\<lambda>d. Inr (opt_member d slot_contentmodel)))) (\<lambda>wikiModel.
     (let s1 = (log (OpenTextDocument wikiModel wikiContent) s)\<lparr>pageName := wikiTitle\<rparr>
      in and_then (page_attr re page_pageid) (\<lambda>wikiPageID.
         and_then (wikiNormalized re) (\<lambda>norm.
         and_then (wikiRedirect re) (\<lambda>redir.
           Inr (log (ShowInformationMessage
                  (''Opened page "'' @ js_str wikiTitle @ ''" (page ID:"'' @ js_str wikiPageID @
                   ''") with Model '' @ js_str wikiModel @ ''.'' @
                   (case norm of
                      Some n \<Rightarrow> '' Normalized: "'' @ js_str (ft_from n) @ ''" => "'' @
                                js_str (ft_to n) @ ''".''
                    | None \<Rightarrow> []) @
                   (case redir of
                      Some r \<Rightarrow> '' Redirect: "'' @ js_str (ft_from r) @ ''" => "'' @
                                js_str (ft_to r) @ ''"''
                    | None \<Rightarrow> [])))
                 s1)))))))\<close>

definition readPage_end :: "ReadPageResult \<Rightarrow> state \<Rightarrow> js_error + state" where
  \<comment> \<open>the callback of \<^verbatim>\<open>xml2js.parseString\<close> in the handler of \<^verbatim>\<open>end\<close>\<close>
  \<open>readPage_end re s =
     and_then
       (opt_chain (api re) (\<lambda>a.
        opt_chain (api_query a) (\<lambda>qs. prop_of (first qs) query_interwiki))) (\<lambda>iw.
     if iw \<noteq> None then
       and_then (interwiki_attr re iw_title) (\<lambda>t.
       and_then (interwiki_attr re iw_iw) (\<lambda>sp.
         Inr (log (ShowWarningMessage
                    (''Interwiki page "'' @ js_str t @ ''" in space "'' @ js_str sp @
                     ''" are currently not supported. Please try to modify host.''))
                s)))
     else
       and_then
         (opt_chain (api re) (\<lambda>a.
          opt_chain (api_query a) (\<lambda>qs.
          and_then (prop_of (first qs) query_pages) (\<lambda>ps.
          opt_chain ps (\<lambda>pl. prop_of (first pl) pages_page))))) (\<lambda>pg.
       if pg = None then Inr s
       else
         and_then (page_attr re page_title) (\<lambda>wikiTitle.
         and_then (page_attr re page_missing) (\<lambda>missing.
         and_then (if missing \<noteq> None then Inr True
                   else and_then (page_attr re page_invalid) (\<lambda>invalid. Inr (invalid \<noteq> None)))
           (\<lambda>notExist.
              if notExist then readPage_notExist wikiTitle re s
              else readPage_show wikiTitle re s)))))\<close>

definition readPage_query :: "Config \<Rightarrow> string option \<Rightarrow> QueryInput" where
  \<comment> \<open>\<^verbatim>\<open>queryInput\<close> of \<^verbatim>\<open>readPage\<close>\<close>
  "readPage_query config title =
     \<lparr>q_action = action_query, q_format = format_xml,
      q_prop = [Some prop_reVisions],
      q_rvprop = [Some rvprop_content, Some rvprop_ids],
      q_rvslots = Some ''*'', q_titles = title, q_page = None,
      q_redirects = (if redirects config then Some ''true'' else None)\<rparr>"

definition readPage ::
  "Config \<Rightarrow> string option \<Rightarrow> ReadPageResult incoming \<Rightarrow> state \<Rightarrow> js_error + state" where
  \<comment> \<open>\<open>title\<close> is the answer of the input box\<close>
  "readPage config title response s =
     (if falsy title then Inr s
      else
        (let s1 = log (SendRequest (readPage_query config title)) s
         in case response of
              NoCallback \<Rightarrow> Inr s1
            | End re \<Rightarrow> readPage_end re s1
            | ErrorEvent name \<Rightarrow> Inr (log (ShowErrorMessage name) s1)))"

definition viewPage_end :: "Config \<Rightarrow> nat \<Rightarrow> GetViewResult \<Rightarrow> state \<Rightarrow> js_error + state" where
  \<comment> \<open>the handler of \<^verbatim>\<open>end\<close>, for the body parsed and converted to \<open>re\<close>\<close>
  "viewPage_end config currentPlanel re s =
     (if error re \<noteq> None then
        and_then (prop_of (error re) api_code) (\<lambda>c.
        and_then (prop_of (error re) api_info) (\<lambda>i.
          Inr (log (ShowErrorMessage (js_str c @ ''! '' @ js_str i)) s)))
      else if parse re \<noteq> None then
        and_then
          (if getCss config
           then and_then (prop_of (parse re) parse_headhtml) (\<lambda>hh. Inr (or_else (opt_member hh star) []))
           else Inr ''<!DOCTYPE html><html><body>'') (\<lambda>header.
        and_then (prop_of (parse re) parse_text) (\<lambda>tx.
        and_then (prop_of (parse re) parse_displaytitle) (\<lambda>dt.
          Inr (set_title currentPlanel (''WikitextPreviewer: '' @ js_str dt)
                 (set_html currentPlanel
                    (header @ js_str (opt_member tx star) @ ''</body></html>'') s)))))
      else Inr s)"


definition viewPage_query :: "Config \<Rightarrow> string option \<Rightarrow> QueryInput" where
  \<comment> \<open>\<^verbatim>\<open>queryInput\<close> of \<^verbatim>\<open>viewPage\<close>\<close>
  "viewPage_query config pageTitle =
     \<lparr>q_action = action_parse, q_format = format_json,
      q_prop = [Some prop_text, Some prop_displayTitle,
                (if getCss config then Some prop_headHTML else None)],
      q_rvprop = [], q_rvslots = None, q_titles = None, q_page = pageTitle,
      q_redirects = (if redirects config then Some ''true'' else None)\<rparr>"

definition viewPage ::
  "Config \<Rightarrow> string option \<Rightarrow> GetViewResult incoming \<Rightarrow> state \<Rightarrow> js_error + state" where
  \<comment> \<open>\<open>pageTitle\<close> is the answer of the input box; the panel is created when
      \<^verbatim>\<open>sendRequest\<close> calls \<^verbatim>\<open>requestCallback\<close> with the response\<close>
  "viewPage config pageTitle response s =
     (if falsy pageTitle then Inr s
      else
        (let s1 = log (SendRequest (viewPage_query config pageTitle)) s
         in case response of
              NoCallback \<Rightarrow> Inr s1
            | End re \<Rightarrow>
                (let (p, s2) = createWebviewPanel ''pageViewer'' ''PageViewer'' Active
                                 (enableJavascript config) s1
                 in viewPage_end config p re s2)
            | ErrorEvent name \<Rightarrow>
                (let (p, s2) = createWebviewPanel ''pageViewer'' ''PageViewer'' Active
                                 (enableJavascript config) s1
                 in Inr (log (ShowErrorMessage name) s2))))"

record TokenResponse =
  tok_result :: "string option"
  tok_lgusername :: "string option"
  tok_lguserid :: "string option"
  tok_token :: "string option"
  tok_csrftoken :: "string option"

record EditInfo =
  edit_nochange :: "string option"
  edit_title :: "string option"
  edit_pageid :: "string option"
  edit_result :: "string option"
  edit_contentmodel :: "string option"
  edit_watched :: "string option"
  edit_oldrevid :: "string option"
  edit_newrevid :: "string option"
  edit_newtimestamp :: "string option"

record EditResponse =
  edit :: "EditInfo option"

definition writePage ::
  "string option \<Rightarrow> string option \<Rightarrow> js_error + TokenResponse \<Rightarrow> js_error + EditResponse
     \<Rightarrow> state \<Rightarrow> js_error + state" where
  \<comment> \<open>\<open>wikiTitle\<close> and \<open>summary\<close> are the answers of the two input boxes,
      \<open>token\<close> and \<open>edited\<close> what \<^verbatim>\<open>getEditToken\<close> and \<^verbatim>\<open>edit\<close> settle with\<close>
  \<open>writePage wikiTitle summary token edited s =
     (case activeDocument s of
        None \<Rightarrow> Inr (log (ShowWarningMessage ''There is no active text editor.'') s)
      | Some wikiContent \<Rightarrow>
     (case bot_wm s of
        None \<Rightarrow> Inr (log (ShowWarningMessage ''You are not logged in. Please log in and try again.'') s)
      | Some b \<Rightarrow>
     if falsy wikiTitle then Inr s
     else
       (let wikiSummary = js_str summary @ '' // Edit via Wikitext Extension for Visual Studio Code'';
            s1 = log BotGetEditToken s;
            s2 = (case token of
                    Inr r \<Rightarrow>
                      log (ShowInformationMessage
                            (''Get edit token status is "'' @ js_str (tok_result r) @
                             ''". User "'' @ js_str (tok_lgusername r) @
                             ''" (User ID: "'' @ js_str (tok_lguserid r) @
                             ''") got the token: "'' @ js_str (tok_token r) @
                             ''" and csrftoken: "'' @ js_str (tok_csrftoken r) @ ''".'')) s1
                  | Inl e \<Rightarrow> log (ShowErrorMessage (js_str (err_name e))) s1);
            s3 = log (BotEdit (js_str wikiTitle) wikiContent wikiSummary) s2
        in case edited of
             Inl e \<Rightarrow> Inl e
           | Inr response \<Rightarrow>
               and_then (prop_of (edit response) edit_nochange) (\<lambda>nochange.
               and_then (prop_of (edit response) id) (\<lambda>e.
                 if nochange \<noteq> None then
                   Inr (log (ShowWarningMessage
                          (''No changes have occurred: "'' @ js_str (edit_nochange e) @
                           ''", Edit page "'' @ js_str (edit_title e) @
                           ''" (Page ID: "'' @ js_str (edit_pageid e) @
                           ''") action status is "'' @ js_str (edit_result e) @
                           ''" with Content Model "'' @ js_str (edit_contentmodel e) @
                           ''". Watched by: "'' @ js_str (edit_watched e) @ ''".'')) s3)
                 else
                   Inr (log (ShowInformationMessage
                          (''Edit page "'' @ js_str (edit_title e) @
                           ''" (Page ID: "'' @ js_str (edit_pageid e) @
                           ''") action status is "'' @ js_str (edit_result e) @
                           ''" with Content Model "'' @ js_str (edit_contentmodel e) @
                           ''" (Version: "'' @ js_str (edit_oldrevid e) @
                           ''" => "'' @ js_str (edit_newrevid e) @
                           ''", Time: "'' @ js_str (edit_newtimestamp e) @
                           ''"). Watched by: "'' @ js_str (edit_watched e) @ ''".'')) s3))))))\<close>

section \<open>Traces, sessions and example values\<close>

definition is_loading :: "event \<Rightarrow> bool" where
  "is_loading e = (case e of SetHtml p h \<Rightarrow> h = showHtmlInfo ''Loading...'' | _ \<Rightarrow> False)"

definition is_request :: "event \<Rightarrow> bool" where
  "is_request e = (case e of BotRequest b a \<Rightarrow> True | SendRequest q \<Rightarrow> True | _ \<Rightarrow> False)"

fun loading_before_request :: "bool \<Rightarrow> event list \<Rightarrow> bool" where
  \<comment> \<open>every request of the trace comes after a write of the loading placeholder;
      the flag says whether one has been seen\<close>
  "loading_before_request shown [] = True"
| "loading_before_request shown (e # es) =
     (if is_request e then shown \<and> loading_before_request shown es
      else loading_before_request (shown \<or> is_loading e) es)"

definition after_request :: "nat \<Rightarrow> js_error + (string \<times> string) option \<Rightarrow> event list" where
  \<comment> \<open>what \<^verbatim>\<open>getView\<close> does to panel \<open>p\<close> once the request has settled\<close>
  "after_request p r =
     (case r of
        Inr None \<Rightarrow> []
      | Inr (Some (html, ttl)) \<Rightarrow> [SetHtml p html, SetTitle p ttl]
      | Inl e \<Rightarrow>
          [ShowErrorMessage
             (''ErrorCode:'' @ js_str (err_code e) @ ''| ErrorInfo:'' @ js_str (err_info e)),
           SetHtml p (showHtmlInfo ''Error'')])"

definition target :: "panel_arg \<Rightarrow> state \<Rightarrow> nat" where
  \<comment> \<open>the panel \<^verbatim>\<open>getView\<close> writes to: the one it is given or the one it creates\<close>
  "target cp s = (case cp of Panel q \<Rightarrow> q | ViewType v \<Rightarrow> length (panels s))"

definition creation :: "panel_arg \<Rightarrow> string \<Rightarrow> state \<Rightarrow> event list" where
  "creation cp vt s =
     (case cp of Panel q \<Rightarrow> [] | ViewType v \<Rightarrow> [CreateWebviewPanel (length (panels s)) v vt])"

definition trace_of :: "js_error + state \<Rightarrow> event list" where
  "trace_of r = (case r of Inr s \<Rightarrow> trace s | Inl e \<Rightarrow> [])"

definition htmls_of :: "js_error + state \<Rightarrow> string list" where
  \<comment> \<open>the content of every panel\<close>
  "htmls_of r = (case r of Inr s \<Rightarrow> map panel_html (panels s) | Inl e \<Rightarrow> [])"

text \<open>What the user does, one command after the other.\<close>

datatype command =
    GetPreview Config "string option" "string option" request_outcome
  | GetPageView Config "string option" "string option" "string option" request_outcome
  | ClosePanel nat
  | EditDocument "string option"

fun run :: "command \<Rightarrow> state \<Rightarrow> state" where
  "run (GetPreview config host botHost outcome) s = getPreview config host botHost outcome s"
| "run (GetPageView config host pageTitle botHost outcome) s =
     getPageView config host pageTitle botHost outcome s"
| "run (ClosePanel p) s = dispose_panel p s"
| "run (EditDocument d) s = s\<lparr>activeDocument := d\<rparr>"

fun run_all :: "command list \<Rightarrow> state \<Rightarrow> state" where
  "run_all [] s = s"
| "run_all (c # cs) s = run_all cs (run c s)"

definition live_preview :: "WebviewPanel \<Rightarrow> bool" where
  \<comment> \<open>an open panel that \<^verbatim>\<open>getPreview\<close> created\<close>
  "live_preview w = (onDidDispose_registered w \<and> \<not> disposed w)"

definition tracking_inv :: "state \<Rightarrow> bool" where
  \<comment> \<open>the panel in \<^verbatim>\<open>previewCurrentPlanel\<close> exists and is the one open preview panel;
      without one, no preview panel is open\<close>
  "tracking_inv s =
     (case previewCurrentPlanel s of
        None \<Rightarrow> map live_preview (panels s) = replicate (length (panels s)) False
      | Some p \<Rightarrow>
          p < length (panels s) \<and>
          map live_preview (panels s) = (replicate (length (panels s)) False)[p := True])"

definition activated :: "state \<Rightarrow> bool" where
  \<comment> \<open>the extension has just been activated: no panel yet, nothing tracked\<close>
  "activated s = (panels s = [] \<and> previewCurrentPlanel s = None)"

definition initial_state :: state where
  "initial_state =
     \<lparr>panels = [], previewCurrentPlanel = None, activeDocument = None, bot_ts = None,
      bot_wm = None, pageName = Some [], trace = []\<rparr>"

definition example_config :: Config where
  "example_config =
     \<lparr>getCss = True, enableJavascript = False, redirects = False,
      transferProtocol = Some ''https://'', articlePath = Some ''/wiki/'',
      apiPath = Some ''/w/api.php'', previewCssStyle = Some []\<rparr>"

definition no_title_result :: GetViewResult where
  \<comment> \<open>a successful answer without \<^verbatim>\<open>displaytitle\<close>\<close>
  "no_title_result =
     \<lparr>parse = Some \<lparr>parse_text = Some \<lparr>star = Some ''<p>Hi</p>''\<rparr>, parse_headhtml = None,
                     parse_categorieshtml = None, parse_displaytitle = None\<rparr>,
      error = None\<rparr>"

definition categories_result :: GetViewResult where
  \<comment> \<open>a successful answer with categories\<close>
  "categories_result =
     \<lparr>parse = Some \<lparr>parse_text = Some \<lparr>star = Some ''<p>Hi</p>''\<rparr>, parse_headhtml = None,
                     parse_categorieshtml = Some \<lparr>star = Some ''<div>Cats</div>''\<rparr>,
                     parse_displaytitle = Some ''Hi''\<rparr>,
      error = None\<rparr>"

definition empty_categories_result :: GetViewResult where
  \<comment> \<open>a successful answer whose categories are the empty text\<close>
  "empty_categories_result =
     \<lparr>parse = Some \<lparr>parse_text = Some \<lparr>star = Some ''<p>Hi</p>''\<rparr>, parse_headhtml = None,
                     parse_categorieshtml = Some \<lparr>star = Some []\<rparr>,
                     parse_displaytitle = Some ''Hi''\<rparr>,
      error = None\<rparr>"

definition api_error_result :: GetViewResult where
  \<comment> \<open>the answer of the API to a title that does not exist\<close>
  "api_error_result =
     \<lparr>parse = None,
      error = Some \<lparr>api_code = Some ''missingtitle'',
                    api_info = Some ''The page you specified does not exist.''\<rparr>\<rparr>"

definition editing_state :: state where
  \<comment> \<open>a document with a page information block is open\<close>
  "editing_state = initial_state\<lparr>activeDocument := Some ''<%-- [PAGE_INFO] t [END_PAGE_INFO] --%> Hi''\<rparr>"

definition example_bot :: MWBot where
  "example_bot = \<lparr>apiUrl = ''https://wiki.example/w/api.php''\<rparr>"

definition rejection_error :: js_error where
  \<comment> \<open>an error with the code and the info of the API\<close>
  "rejection_error =
     \<lparr>err_code = Some ''missingtitle'',
      err_info = Some ''The page you specified does not exist.'',
      err_name = Some ''Error''\<rparr>"

definition example_session :: "command list" where
  \<comment> \<open>the user opens a document and asks for a preview\<close>
  "example_session =
     [EditDocument (Some ''Hi''),
      GetPreview example_config (Some ''wiki.example'') (Some ''wiki.example'')
        (Resolved categories_result)]"

definition missing_page :: Page where
  \<comment> \<open>\<^verbatim>\<open><page title="Foo" missing="" />\<close>\<close>
  "missing_page =
     \<lparr>page_dollar = Some \<lparr>page_title = Some ''Foo'', page_missing = Some [], page_invalid = None,
                          page_invalidreason = None, page_pageid = None\<rparr>,
      page_revisions = None\<rparr>"

definition missing_page_result :: ReadPageResult where
  \<comment> \<open>the answer of the API to a query for the page \<^verbatim>\<open>Foo\<close>, which does not exist\<close>
  "missing_page_result =
     \<lparr>api = Some \<lparr>api_query = Some
        [\<lparr>query_interwiki = None,
          query_pages = Some [\<lparr>pages_page = Some [missing_page]\<rparr>],
          query_normalized = None, query_redirects = None\<rparr>]\<rparr>\<rparr>"

section \<open>Assembling the document\<close>

lemmas eval_defs =
  htmlHead_def htmlText_def htmlCategories_def htmlEnd_def baseElem_def style_def
  js_str_def nullish_else_def or_else_def opt_member_def falsy_def js_replace_def

lemmas state_defs =
  getView_def getView_try_def page_args_def preview_args_def baseHref_def ensure_panel_def
  getPageView_def getPreview_def getBot_def createWebviewPanel_def set_html_def
  set_title_def log_def update_panel_def showHtmlInfo_def

lemma getView_render_Some:
  "parse re = Some pr \<Longrightarrow>
   getView_render config vt base re =
     Inr (Some (htmlHead config base (parse_headhtml pr) @ htmlText (parse_text pr) @
                htmlCategories (parse_categorieshtml pr) @ htmlEnd,
                vt @ '': '' @ js_str (parse_displaytitle pr)))"
  by (simp add: getView_render_def prop_of_def and_then_def)


text \<open>
  Claim C2. When head HTML is supplied, the base tag and the style block are
  inserted right after the opening \<^verbatim>\<open><head>\<close> of the fragment; when it is absent,
  a minimal head with exactly the base tag and the style block is synthesized.

  The code writes one more character: \<open>baseElem\<close> ends with a quotation mark after
  the \<^verbatim>\<open>/>\<close> that closes the base tag, so for every configuration and base URI
  the synthesized head holds the base tag, a stray quotation mark and then the
  style block; the same text is what goes after \<^verbatim>\<open><head>\<close> of a supplied fragment.
\<close>

theorem synthesized_head_stray_quote:
  \<open>htmlHead config baseURI None =
     ''<!DOCTYPE html><html><head>'' @ ''<base href="'' @ baseURI @ ''" />'' @ ''"'' @
     ''<style>'' @ js_str (previewCssStyle config) @ ''</style>'' @ ''</head><body>''
   \<and> htmlHead example_config ''https://wiki.example/''
         (Some \<lparr>star = Some ''<html><head></head><body>''\<rparr>) =
       ''<html><head><base href="https://wiki.example/" />"<style></style></head><body>''\<close>
  by (simp add: eval_defs example_config_def)

text \<open>
  Claim C3. After a successful render the title of the panel is the viewer label,
  \<^verbatim>\<open>": "\<close> and the display title when one was decoded, and the label alone when
  none was.

  The code interpolates \<^verbatim>\<open>re.parse.displaytitle\<close> without a default: for the page
  viewer and an answer without display title the title of the new panel is
  \<^verbatim>\<open>WikiViewer: undefined\<close>, not \<^verbatim>\<open>WikiViewer\<close>.
\<close>

theorem title_without_display_title:
  "map panel_title
     (panels (getPageView example_config (Some ''wiki.example'') (Some ''Foo'') (Some ''wiki.example'')
                (Resolved no_title_result) initial_state))
   = [''WikiViewer: undefined'']"
  by (simp add: state_defs getView_render_def prop_of_def and_then_def eval_defs
        no_title_result_def initial_state_def example_config_def)

text \<open>
  Claim C7. Without a categories payload the assembled document has no
  horizontal rule and no categories; with one, the rule and the categories come
  once, right after the body.

  The second half fails for a payload that is there and empty: the code tests
  the truth value of the payload, and the empty text is false, so the document
  is head, body and closing tags, with no \<^verbatim>\<open><hr />\<close> after the body.
\<close>

theorem empty_categories_no_segment:
  "getView_render example_config ''WikiViewer'' ''https://wiki.example/'' empty_categories_result =
     Inr (Some (htmlHead example_config ''https://wiki.example/'' None @ ''<p>Hi</p>'' @
                ''</body></html>'',
                ''WikiViewer: Hi''))
   \<and> getView_render example_config ''WikiViewer'' ''https://wiki.example/'' empty_categories_result \<noteq>
     Inr (Some (htmlHead example_config ''https://wiki.example/'' None @ ''<p>Hi</p>'' @
                ''<hr />'' @ [] @ ''</body></html>'',
                ''WikiViewer: Hi''))"
  by (simp add: getView_render_def prop_of_def and_then_def empty_categories_result_def
        htmlText_def htmlCategories_def htmlEnd_def opt_member_def or_else_def falsy_def js_str_def)

text \<open>
  Claim C7, as the code has it. A payload that is missing or empty gives a
  document of head, body and the closing tags, without rule and categories. A
  payload that is a non-empty text \<open>c\<close> gives head, body, \<^verbatim>\<open><hr />\<close>, \<open>c\<close> and the
  closing tags: the rule and the categories once, right after the body.
\<close>

theorem categories_segment:
  assumes "parse re = Some pr"
  shows "(opt_member (parse_categorieshtml pr) star \<in> {None, Some []} \<longrightarrow>
            getView_render config vt base re =
              Inr (Some (htmlHead config base (parse_headhtml pr) @ htmlText (parse_text pr) @
                         ''</body></html>'',
                         vt @ '': '' @ js_str (parse_displaytitle pr))))
       \<and> (\<forall>c. opt_member (parse_categorieshtml pr) star = Some c \<and> c \<noteq> [] \<longrightarrow>
            getView_render config vt base re =
              Inr (Some (htmlHead config base (parse_headhtml pr) @ htmlText (parse_text pr) @
                         ''<hr />'' @ c @ ''</body></html>'',
                         vt @ '': '' @ js_str (parse_displaytitle pr))))"
  using assms
  by (auto simp: getView_render_Some htmlCategories_def falsy_def htmlEnd_def js_str_def)

theorem categories_segment_witness:
  "getView_render example_config ''WikiViewer'' ''https://wiki.example/'' categories_result =
     Inr (Some (htmlHead example_config ''https://wiki.example/'' None @ ''<p>Hi</p>'' @
                ''<hr />'' @ ''<div>Cats</div>'' @ ''</body></html>'',
                ''WikiViewer: Hi''))
   \<and> getView_render example_config ''WikiViewer'' ''https://wiki.example/'' no_title_result =
     Inr (Some (htmlHead example_config ''https://wiki.example/'' None @ ''<p>Hi</p>'' @
                ''</body></html>'',
                ''WikiViewer: undefined''))"
proof -
  have a: "parse categories_result =
             Some \<lparr>parse_text = Some \<lparr>star = Some ''<p>Hi</p>''\<rparr>, parse_headhtml = None,
                   parse_categorieshtml = Some \<lparr>star = Some ''<div>Cats</div>''\<rparr>,
                   parse_displaytitle = Some ''Hi''\<rparr>"
    by (simp add: categories_result_def)
  have b: "parse no_title_result =
             Some \<lparr>parse_text = Some \<lparr>star = Some ''<p>Hi</p>''\<rparr>, parse_headhtml = None,
                   parse_categorieshtml = None, parse_displaytitle = None\<rparr>"
    by (simp add: no_title_result_def)
  show ?thesis
    using categories_segment [OF a, of example_config "''WikiViewer''" "''https://wiki.example/''"]
          categories_segment [OF b, of example_config "''WikiViewer''" "''https://wiki.example/''"]
    by (simp add: opt_member_def htmlText_def or_else_def js_str_def)
qed

section \<open>Effects on the panels and the trace\<close>

lemma trace_log [simp]: "trace (log e s) = trace s @ [e]"
  by (simp add: log_def)

lemma panels_log [simp]: "panels (log e s) = panels s"
  by (simp add: log_def)

lemma trace_update_panel [simp]: "trace (update_panel p f s) = trace s"
  by (simp add: update_panel_def)

lemma length_panels_update_panel [simp]: "length (panels (update_panel p f s)) = length (panels s)"
  by (simp add: update_panel_def)

lemma trace_set_html [simp]: "trace (set_html p h s) = trace s @ [SetHtml p h]"
  by (simp add: set_html_def)

lemma trace_set_title [simp]: "trace (set_title p h s) = trace s @ [SetTitle p h]"
  by (simp add: set_title_def)

lemma length_panels_set_html [simp]: "length (panels (set_html p h s)) = length (panels s)"
  by (simp add: set_html_def)

lemma length_panels_set_title [simp]: "length (panels (set_title p h s)) = length (panels s)"
  by (simp add: set_title_def)

lemma panel_html_set_html [simp]:
  "p < length (panels s) \<Longrightarrow> panel_html (panels (set_html p h s) ! p) = h"
  by (simp add: set_html_def update_panel_def)

lemma doc_log [simp]: "activeDocument (log e s) = activeDocument s"
  by (simp add: log_def)

lemma doc_update_panel [simp]: "activeDocument (update_panel p f s) = activeDocument s"
  by (simp add: update_panel_def)

lemma doc_set_html [simp]: "activeDocument (set_html p h s) = activeDocument s"
  by (simp add: set_html_def)

lemma doc_set_title [simp]: "activeDocument (set_title p h s) = activeDocument s"
  by (simp add: set_title_def)

lemma bot_log [simp]: "bot_ts (log e s) = bot_ts s"
  by (simp add: log_def)

lemma bot_update_panel [simp]: "bot_ts (update_panel p f s) = bot_ts s"
  by (simp add: update_panel_def)

lemma bot_set_html [simp]: "bot_ts (set_html p h s) = bot_ts s"
  by (simp add: set_html_def)

lemma bot_set_title [simp]: "bot_ts (set_title p h s) = bot_ts s"
  by (simp add: set_title_def)

lemma getView_trace:
  "trace (getView cp vt args tbot base config outcome s) =
     trace s @ creation cp vt s @
     [SetHtml (target cp s) (showHtmlInfo ''Loading...''), BotRequest tbot args] @
     after_request (target cp s) (getView_try config vt base outcome)"
  by (cases cp; cases "getView_try config vt base outcome")
     (auto simp: getView_def createWebviewPanel_def after_request_def target_def creation_def
           split: option.splits prod.splits)

lemma getView_length:
  "length (panels (getView cp vt args tbot base config outcome s)) =
     length (panels s) + (case cp of Panel q \<Rightarrow> 0 | ViewType v \<Rightarrow> 1)"
  by (cases cp; cases "getView_try config vt base outcome")
     (auto simp: getView_def createWebviewPanel_def Let_def
           split: option.splits prod.splits)

lemma getView_error_html:
  "target cp s < length (panels (getView cp vt args tbot base config (Rejected e) s)) \<Longrightarrow>
   panel_html (panels (getView cp vt args tbot base config (Rejected e) s) ! target cp s) =
     showHtmlInfo ''Error''"
  by (cases cp)
     (auto simp: getView_def getView_try_def createWebviewPanel_def target_def Let_def
           split: option.splits prod.splits)




text \<open>
  Claim C1. When the decoded answer carries a top-level API error, an error
  message built from its code and info is shown, no field is extracted, and the
  content of the panel is overwritten with the \<^verbatim>\<open>Error\<close> placeholder.

  This fails for \<^verbatim>\<open>viewPage\<close>, which has no placeholder documents at all: for an
  answer with an error it shows the message and leaves its new panel empty.
\<close>

theorem viewPage_error_leaves_surface:
  "htmls_of (viewPage example_config (Some ''Foo'') (End api_error_result) initial_state) = [[]]
   \<and> htmls_of (viewPage example_config (Some ''Foo'') (End api_error_result) initial_state) \<noteq>
       [showHtmlInfo ''Error'']"
  by (simp add: viewPage_def viewPage_end_def createWebviewPanel_def log_def falsy_def Let_def
     api_error_result_def prop_of_def and_then_def js_str_def initial_state_def example_config_def
     htmls_of_def showHtmlInfo_def)

text \<open>
  Claim C1, as the code has it. In \<^verbatim>\<open>getView\<close> (live preview and page viewer) the
  error arrives as the rejection of the request: the loading placeholder and the
  request are followed by the message \<^verbatim>\<open>ErrorCode:<code>| ErrorInfo:<info>\<close> and
  by the \<^verbatim>\<open>Error\<close> placeholder, which is then the content of the panel, and by
  nothing else, so nothing is extracted and the title is not set. In
  \<^verbatim>\<open>viewPage\<close> the error is read from the decoded answer: the handler shows
  \<^verbatim>\<open><code>! <info>\<close> and does nothing else, so the panel keeps the content it
  was created with.
\<close>

theorem api_error_surfaced:
  "trace (getView cp vt args tbot base config (Rejected e) s) =
     trace s @ creation cp vt s @
     [SetHtml (target cp s) (showHtmlInfo ''Loading...''), BotRequest tbot args,
      ShowErrorMessage (''ErrorCode:'' @ js_str (err_code e) @ ''| ErrorInfo:'' @ js_str (err_info e)),
      SetHtml (target cp s) (showHtmlInfo ''Error'')]
   \<and> (target cp s < length (panels (getView cp vt args tbot base config (Rejected e) s)) \<longrightarrow>
        panel_html (panels (getView cp vt args tbot base config (Rejected e) s) ! target cp s) =
          showHtmlInfo ''Error'')
   \<and> (error re = Some ae \<longrightarrow>
        viewPage_end config q re s =
          Inr (log (ShowErrorMessage (js_str (api_code ae) @ ''! '' @ js_str (api_info ae))) s))"
  by (simp add: getView_trace getView_error_html after_request_def getView_try_def
        viewPage_end_def prop_of_def and_then_def)

theorem api_error_surfaced_witness:
  "trace (getView (ViewType ''pageViewer'') ''WikiViewer'' (page_args example_config (Some ''Foo''))
            example_bot ''https://wiki.example/wiki/'' example_config (Rejected rejection_error)
            initial_state) =
     [CreateWebviewPanel 0 ''pageViewer'' ''WikiViewer'',
      SetHtml 0 (showHtmlInfo ''Loading...''),
      BotRequest example_bot (page_args example_config (Some ''Foo'')),
      ShowErrorMessage ''ErrorCode:missingtitle| ErrorInfo:The page you specified does not exist.'',
      SetHtml 0 (showHtmlInfo ''Error'')]
   \<and> panel_html
        (panels (getView (ViewType ''pageViewer'') ''WikiViewer''
                   (page_args example_config (Some ''Foo'')) example_bot
                   ''https://wiki.example/wiki/'' example_config (Rejected rejection_error)
                   initial_state) ! 0) = showHtmlInfo ''Error''
   \<and> viewPage_end example_config 0 api_error_result initial_state =
       Inr (log (ShowErrorMessage ''missingtitle! The page you specified does not exist.'')
              initial_state)"
proof -
  have e: "error api_error_result =
             Some \<lparr>api_code = Some ''missingtitle'',
                   api_info = Some ''The page you specified does not exist.''\<rparr>"
    by (simp add: api_error_result_def)
  have ec: "err_code rejection_error = Some ''missingtitle''"
    "err_info rejection_error = Some ''The page you specified does not exist.''"
    by (simp_all add: rejection_error_def)
  have t: "target (ViewType ''pageViewer'') initial_state = 0"
    and c: "creation (ViewType ''pageViewer'') ''WikiViewer'' initial_state =
              [CreateWebviewPanel 0 ''pageViewer'' ''WikiViewer'']"
    and tr: "trace initial_state = []"
    by (simp_all add: target_def creation_def initial_state_def)
  have l: "length (panels (getView (ViewType ''pageViewer'') ''WikiViewer''
                   (page_args example_config (Some ''Foo'')) example_bot
                   ''https://wiki.example/wiki/'' example_config (Rejected rejection_error)
                   initial_state)) = 1"
    by (simp add: getView_length initial_state_def)
  show ?thesis
    using api_error_surfaced [where cp = "ViewType ''pageViewer''" and vt = "''WikiViewer''"
        and args = "page_args example_config (Some ''Foo'')" and tbot = example_bot
        and base = "''https://wiki.example/wiki/''" and config = example_config
        and e = rejection_error and s = initial_state and re = api_error_result
        and ae = "\<lparr>api_code = Some ''missingtitle'',
                   api_info = Some ''The page you specified does not exist.''\<rparr>"
        and q = 0]
    by (simp add: e t c tr l ec js_str_def)
qed

text \<open>
  Claim C9. When a precondition is not met (no active document, no host, empty
  input) the command returns without any error or warning message and without
  creating or changing a panel.

  This fails for \<^verbatim>\<open>writePage\<close> without an active editor: it shows a warning.
\<close>

theorem writePage_warns_without_editor:
  "writePage (Some ''Foo'') (Some ''fix'') (Inl TypeError) (Inl TypeError) initial_state \<noteq>
     Inr initial_state"
  by (simp add: writePage_def initial_state_def log_def)

text \<open>
  Claim C9, as the code has it. \<open>host\<close> is the answer of the call of \<^verbatim>\<open>getHost\<close>
  in the command itself, \<open>botHost\<close> the answer of the call inside \<^verbatim>\<open>getBot\<close>,
  which is made when no bot is logged in. Without \<open>host\<close>, \<^verbatim>\<open>getPreview\<close> and
  \<^verbatim>\<open>getPageView\<close> leave the state as it is (no message, no panel); so does
  \<^verbatim>\<open>getPreview\<close> without an active document or with an empty one, and so do
  \<^verbatim>\<open>getPageView\<close>, \<^verbatim>\<open>viewPage\<close>, \<^verbatim>\<open>readPage\<close> and \<^verbatim>\<open>writePage\<close> when the input
  box is left empty. With \<open>host\<close> and input but without bot and \<open>botHost\<close>,
  \<^verbatim>\<open>getPageView\<close> leaves the state as it is as well, while \<^verbatim>\<open>getPreview\<close> shows no
  message but has by then done its step for the panel: with a panel tracked
  nothing changes, with none tracked the preview panel is created and tracked.
  \<^verbatim>\<open>writePage\<close> without an active editor shows the warning
  \<^verbatim>\<open>There is no active text editor.\<close> and does nothing else. What \<^verbatim>\<open>getHost\<close>
  itself shows when it finds no host is not part of these commands.
\<close>

theorem silent_preconditions:
  "(falsy host \<longrightarrow>
      getPreview config host botHost outcome s = s \<and>
      getPageView config host pageTitle botHost outcome s = s)
   \<and> (falsy (activeDocument s) \<longrightarrow> getPreview config host botHost outcome s = s)
   \<and> (falsy pageTitle \<longrightarrow>
        getPageView config host pageTitle botHost outcome s = s \<and>
        viewPage config pageTitle viewed s = Inr s \<and>
        readPage config pageTitle rd s = Inr s)
   \<and> (activeDocument s \<noteq> None \<and> bot_wm s \<noteq> None \<and> falsy pageTitle \<longrightarrow>
        writePage pageTitle summary token edited s = Inr s)
   \<and> (activeDocument s = None \<longrightarrow>
        writePage pageTitle summary token edited s =
          Inr (log (ShowWarningMessage ''There is no active text editor.'') s))
   \<and> (bot_ts s = None \<and> falsy botHost \<longrightarrow>
        getPageView config host pageTitle botHost outcome s = s)
   \<and> (bot_ts s = None \<and> falsy botHost \<and> \<not> falsy host \<and> \<not> falsy (activeDocument s) \<longrightarrow>
        getPreview config host botHost outcome s = snd (ensure_panel config s)
        \<and> (\<forall>q. previewCurrentPlanel s = Some q \<longrightarrow> snd (ensure_panel config s) = s)
        \<and> (previewCurrentPlanel s = None \<longrightarrow>
             trace (snd (ensure_panel config s)) =
               trace s @ [CreateWebviewPanel (length (panels s)) ''previewer'' ''WikitextPreviewer'']
             \<and> length (panels (snd (ensure_panel config s))) = Suc (length (panels s))
             \<and> previewCurrentPlanel (snd (ensure_panel config s)) = Some (length (panels s))))"
proof (intro conjI)
  show "bot_ts s = None \<and> falsy botHost \<longrightarrow>
        getPageView config host pageTitle botHost outcome s = s"
    by (simp add: getPageView_def getBot_def)
  show "bot_ts s = None \<and> falsy botHost \<and> \<not> falsy host \<and> \<not> falsy (activeDocument s) \<longrightarrow>
        getPreview config host botHost outcome s = snd (ensure_panel config s)
        \<and> (\<forall>q. previewCurrentPlanel s = Some q \<longrightarrow> snd (ensure_panel config s) = s)
        \<and> (previewCurrentPlanel s = None \<longrightarrow>
             trace (snd (ensure_panel config s)) =
               trace s @ [CreateWebviewPanel (length (panels s)) ''previewer'' ''WikitextPreviewer'']
             \<and> length (panels (snd (ensure_panel config s))) = Suc (length (panels s))
             \<and> previewCurrentPlanel (snd (ensure_panel config s)) = Some (length (panels s)))"
  proof (intro impI, elim conjE)
    assume h: "bot_ts s = None" "falsy botHost" "\<not> falsy host" "\<not> falsy (activeDocument s)"
    have "bot_ts (snd (ensure_panel config s)) = None"
      using h(1) by (simp add: ensure_panel_def createWebviewPanel_def update_panel_def log_def
            split: option.splits)
    then have "getBot config botHost (snd (ensure_panel config s)) = None"
      using h(2) by (simp add: getBot_def)
    then have a: "getPreview config host botHost outcome s = snd (ensure_panel config s)"
      using h(3,4) by (simp add: getPreview_def Let_def split_beta)
    have b: "\<forall>q. previewCurrentPlanel s = Some q \<longrightarrow> snd (ensure_panel config s) = s"
      by (simp add: ensure_panel_def)
    have c: "previewCurrentPlanel s = None \<longrightarrow>
             trace (snd (ensure_panel config s)) =
               trace s @ [CreateWebviewPanel (length (panels s)) ''previewer'' ''WikitextPreviewer'']
             \<and> length (panels (snd (ensure_panel config s))) = Suc (length (panels s))
             \<and> previewCurrentPlanel (snd (ensure_panel config s)) = Some (length (panels s))"
      by (simp add: ensure_panel_def createWebviewPanel_def)
    from a b c show "getPreview config host botHost outcome s = snd (ensure_panel config s)
        \<and> (\<forall>q. previewCurrentPlanel s = Some q \<longrightarrow> snd (ensure_panel config s) = s)
        \<and> (previewCurrentPlanel s = None \<longrightarrow>
             trace (snd (ensure_panel config s)) =
               trace s @ [CreateWebviewPanel (length (panels s)) ''previewer'' ''WikitextPreviewer'']
             \<and> length (panels (snd (ensure_panel config s))) = Suc (length (panels s))
             \<and> previewCurrentPlanel (snd (ensure_panel config s)) = Some (length (panels s)))"
      by (intro conjI)
  qed
qed (auto simp: getPreview_def getPageView_def viewPage_def readPage_def writePage_def)

theorem silent_preconditions_witness:
  "getPreview example_config None None (Resolved categories_result) initial_state = initial_state
   \<and> getPageView example_config None (Some []) None (Resolved categories_result) initial_state =
       initial_state
   \<and> viewPage example_config (Some []) (End categories_result) initial_state = Inr initial_state
   \<and> writePage (Some []) None (Inl TypeError) (Inl TypeError) initial_state =
       Inr (log (ShowWarningMessage ''There is no active text editor.'') initial_state)
   \<and> getPageView example_config (Some ''wiki.example'') (Some ''Foo'') None
       (Resolved categories_result) editing_state = editing_state
   \<and> trace (getPreview example_config (Some ''wiki.example'') None (Resolved categories_result)
              editing_state) =
       [CreateWebviewPanel 0 ''previewer'' ''WikitextPreviewer'']
   \<and> previewCurrentPlanel
        (getPreview example_config (Some ''wiki.example'') None (Resolved categories_result)
           editing_state) = Some 0"
proof -
  have f: "falsy None" "falsy (Some [])" "activeDocument initial_state = None"
    by (simp_all add: falsy_def initial_state_def)
  have e: "bot_ts editing_state = None" "\<not> falsy (Some ''wiki.example'')"
    "\<not> falsy (activeDocument editing_state)" "previewCurrentPlanel editing_state = None"
    "trace editing_state = []" "panels editing_state = []"
    by (simp_all add: falsy_def editing_state_def initial_state_def)
  have a: "getPreview example_config None None (Resolved categories_result) initial_state = initial_state
   \<and> getPageView example_config None (Some []) None (Resolved categories_result) initial_state =
       initial_state
   \<and> viewPage example_config (Some []) (End categories_result) initial_state = Inr initial_state
   \<and> writePage (Some []) None (Inl TypeError) (Inl TypeError) initial_state =
       Inr (log (ShowWarningMessage ''There is no active text editor.'') initial_state)"
    using f silent_preconditions [of None example_config None "Resolved categories_result"
        initial_state "Some []" "End categories_result" NoCallback None "Inl TypeError"
        "Inl TypeError"]
    by simp
  have b: "getPageView example_config (Some ''wiki.example'') (Some ''Foo'') None
       (Resolved categories_result) editing_state = editing_state
   \<and> trace (getPreview example_config (Some ''wiki.example'') None (Resolved categories_result)
              editing_state) =
       [CreateWebviewPanel 0 ''previewer'' ''WikitextPreviewer'']
   \<and> previewCurrentPlanel
        (getPreview example_config (Some ''wiki.example'') None (Resolved categories_result)
           editing_state) = Some 0"
    using f(1) e silent_preconditions [where host = "Some ''wiki.example''" and botHost = None
        and config = example_config and outcome = "Resolved categories_result"
        and s = editing_state and pageTitle = "Some ''Foo''"]
    by simp
  from a b show ?thesis by blast
qed

section \<open>The loading placeholder and the request\<close>

lemma getBot_cong: "bot_ts s' = bot_ts s \<Longrightarrow> getBot config h s' = getBot config h s"
  by (simp add: getBot_def)

lemma lbr_append:
  "\<not> list_ex is_request pre \<Longrightarrow>
   loading_before_request shown (pre @ es) =
     loading_before_request (shown \<or> list_ex is_loading pre) es"
  by (induction pre arbitrary: shown) auto

lemma after_request_no_request: "\<not> list_ex is_request (after_request p r)"
  by (auto simp: after_request_def is_request_def split: sum.splits option.splits)

lemma lbr_no_request: "\<not> list_ex is_request es \<Longrightarrow> loading_before_request shown es"
  by (induction es arbitrary: shown) auto

lemma creation_no_request: "\<not> list_ex is_request (creation cp vt s)"
  by (cases cp) (simp_all add: creation_def is_request_def)

lemma lbr_getView:
  "loading_before_request False
     (creation cp vt s @ [SetHtml p (showHtmlInfo ''Loading...''), BotRequest tbot args] @
      after_request p r)"
  by (simp add: lbr_append creation_no_request is_request_def is_loading_def
        lbr_no_request after_request_no_request)


lemma ensure_panel_trace:
  "trace (snd (ensure_panel config s)) =
     trace s @ (case previewCurrentPlanel s of
                  None \<Rightarrow> [CreateWebviewPanel (length (panels s)) ''previewer'' ''WikitextPreviewer'']
                | Some q \<Rightarrow> [])"
  by (simp add: ensure_panel_def createWebviewPanel_def split: option.splits)

lemma ensure_panel_bot: "bot_ts (snd (ensure_panel config s)) = bot_ts s"
  by (simp add: ensure_panel_def createWebviewPanel_def update_panel_def log_def split: option.splits)

lemma ensure_panel_fst:
  "fst (ensure_panel config s) = (case previewCurrentPlanel s of None \<Rightarrow> length (panels s) | Some q \<Rightarrow> q)"
  by (simp add: ensure_panel_def createWebviewPanel_def split: option.splits)

lemma ensure_panel_tracked:
  "previewCurrentPlanel (snd (ensure_panel config s)) = Some (fst (ensure_panel config s))"
  by (simp add: ensure_panel_def createWebviewPanel_def split: option.splits)

lemma getPreview_run:
  assumes "\<not> falsy host" and "\<not> falsy (activeDocument s)" and "getBot config botHost s = Some tbot"
  shows "getPreview config host botHost outcome s =
           getView (Panel (fst (ensure_panel config s))) ''WikitextPreviewer''
             (preview_args config (regex_remove_first PAGE_INFO_regex (js_str (activeDocument s))))
             tbot (baseHref config host) config outcome (snd (ensure_panel config s))"
proof -
  have "getBot config botHost (snd (ensure_panel config s)) = Some tbot"
    using assms(3) by (simp add: getBot_def ensure_panel_bot)
  with assms(1,2) show ?thesis
    by (simp add: getPreview_def Let_def split_beta)
qed

lemma getPageView_run:
  assumes "\<not> falsy host" and "\<not> falsy pageTitle" and "getBot config botHost s = Some tbot"
  shows "getPageView config host pageTitle botHost outcome s =
           getView (ViewType ''pageViewer'') ''WikiViewer'' (page_args config pageTitle)
             tbot (baseHref config host) config outcome s"
  using assms by (simp add: getPageView_def)

lemma viewPage_end_trace:
  "\<exists>s' rest. viewPage_end config p re s = Inr s' \<and> trace s' = trace s @ rest"
  by (cases "error re"; cases "parse re")
     (simp_all add: viewPage_end_def prop_of_def and_then_def)

lemma viewPage_trace:
  assumes "\<not> falsy pageTitle"
  shows "\<exists>rest. trace_of (viewPage config pageTitle viewed s) =
            trace s @ SendRequest (viewPage_query config pageTitle) # rest"
proof (cases viewed)
  case NoCallback
  with assms show ?thesis by (simp add: viewPage_def trace_of_def)
next
  case (End re)
  obtain s' rest where
    "viewPage_end config (length (panels (log (SendRequest (viewPage_query config pageTitle)) s))) re
       (snd (createWebviewPanel ''pageViewer'' ''PageViewer'' Active (enableJavascript config)
              (log (SendRequest (viewPage_query config pageTitle)) s))) = Inr s'"
    and "trace s' = trace (snd (createWebviewPanel ''pageViewer'' ''PageViewer'' Active (enableJavascript config)
              (log (SendRequest (viewPage_query config pageTitle)) s))) @ rest"
    using viewPage_end_trace by blast
  with assms End show ?thesis
    by (simp add: viewPage_def trace_of_def Let_def createWebviewPanel_def)
next
  case (ErrorEvent n)
  with assms show ?thesis
    by (simp add: viewPage_def trace_of_def Let_def createWebviewPanel_def)
qed

text \<open>
  Claim C5. In every preview and every page view the content of the panel is set
  to the \<^verbatim>\<open>Loading...\<close> placeholder before the request is issued, never after.

  This fails for \<^verbatim>\<open>viewPage\<close>: it sends the request first, creates its panel
  when the response arrives, and never writes a loading placeholder.
\<close>

theorem viewPage_requests_first:
  "\<not> loading_before_request False
       (trace_of (viewPage example_config (Some ''Foo'') (End categories_result) initial_state))"
  by (simp add: viewPage_def viewPage_end_def createWebviewPanel_def log_def falsy_def Let_def
     categories_result_def prop_of_def and_then_def js_str_def initial_state_def example_config_def
     trace_of_def is_request_def set_html_def set_title_def update_panel_def)

text \<open>
  Claim C5, as the code has it. When \<^verbatim>\<open>getPreview\<close> or \<^verbatim>\<open>getPageView\<close> reach
  their request (host, input and bot are there), the write of the
  \<^verbatim>\<open>Loading...\<close> placeholder is the step right before the request, nothing
  before it is a request, and what follows the request is only the rendered
  document with its title, or the error message with the \<^verbatim>\<open>Error\<close>
  placeholder. \<^verbatim>\<open>viewPage\<close> starts with its request, before any write to a panel.
\<close>

theorem loading_precedes_request:
  assumes "\<not> falsy host" and "getBot config botHost s = Some tbot"
  shows "(\<not> falsy (activeDocument s) \<longrightarrow>
           (\<exists>pre.
              trace (getPreview config host botHost outcome s) =
                trace s @ pre @
                [SetHtml (fst (ensure_panel config s)) (showHtmlInfo ''Loading...''),
                 BotRequest tbot
                   (preview_args config
                      (regex_remove_first PAGE_INFO_regex (js_str (activeDocument s))))] @
                after_request (fst (ensure_panel config s))
                  (getView_try config ''WikitextPreviewer'' (baseHref config host) outcome)
              \<and> \<not> list_ex is_request pre)
           \<and> loading_before_request False
                (drop (length (trace s)) (trace (getPreview config host botHost outcome s))))
       \<and> (\<not> falsy pageTitle \<longrightarrow>
           trace (getPageView config host pageTitle botHost outcome s) =
             trace s @
             [CreateWebviewPanel (length (panels s)) ''pageViewer'' ''WikiViewer'',
              SetHtml (length (panels s)) (showHtmlInfo ''Loading...''),
              BotRequest tbot (page_args config pageTitle)] @
             after_request (length (panels s))
               (getView_try config ''WikiViewer'' (baseHref config host) outcome)
           \<and> loading_before_request False
                (drop (length (trace s)) (trace (getPageView config host pageTitle botHost outcome s))))
       \<and> (\<not> falsy pageTitle \<longrightarrow>
           (\<exists>rest.
              trace_of (viewPage config pageTitle viewed s) =
                trace s @ SendRequest (viewPage_query config pageTitle) # rest
              \<and> \<not> loading_before_request False
                    (SendRequest (viewPage_query config pageTitle) # rest)))"
proof (intro conjI impI)
  assume doc: "\<not> falsy (activeDocument s)"
  let ?pre = "case previewCurrentPlanel s of
                None \<Rightarrow> [CreateWebviewPanel (length (panels s)) ''previewer'' ''WikitextPreviewer'']
              | Some q \<Rightarrow> []"
  have pre: "\<not> list_ex is_request ?pre"
    by (simp add: is_request_def split: option.splits)
  have tr: "trace (getPreview config host botHost outcome s) =
                trace s @ ?pre @
                [SetHtml (fst (ensure_panel config s)) (showHtmlInfo ''Loading...''),
                 BotRequest tbot
                   (preview_args config
                      (regex_remove_first PAGE_INFO_regex (js_str (activeDocument s))))] @
                after_request (fst (ensure_panel config s))
                  (getView_try config ''WikitextPreviewer'' (baseHref config host) outcome)"
    by (simp add: getPreview_run [OF assms(1) doc assms(2)] getView_trace ensure_panel_trace
          target_def creation_def)
  show "\<exists>pre.
              trace (getPreview config host botHost outcome s) =
                trace s @ pre @
                [SetHtml (fst (ensure_panel config s)) (showHtmlInfo ''Loading...''),
                 BotRequest tbot
                   (preview_args config
                      (regex_remove_first PAGE_INFO_regex (js_str (activeDocument s))))] @
                after_request (fst (ensure_panel config s))
                  (getView_try config ''WikitextPreviewer'' (baseHref config host) outcome)
              \<and> \<not> list_ex is_request pre"
    using tr pre by blast
  show "loading_before_request False
                (drop (length (trace s)) (trace (getPreview config host botHost outcome s)))"
    unfolding tr using pre
    by (simp add: lbr_append is_request_def is_loading_def lbr_no_request after_request_no_request)
next
  assume t: "\<not> falsy pageTitle"
  show tr: "trace (getPageView config host pageTitle botHost outcome s) =
             trace s @
             [CreateWebviewPanel (length (panels s)) ''pageViewer'' ''WikiViewer'',
              SetHtml (length (panels s)) (showHtmlInfo ''Loading...''),
              BotRequest tbot (page_args config pageTitle)] @
             after_request (length (panels s))
               (getView_try config ''WikiViewer'' (baseHref config host) outcome)"
    by (simp add: getPageView_run [OF assms(1) t assms(2)] getView_trace target_def creation_def)
  show "loading_before_request False
                (drop (length (trace s)) (trace (getPageView config host pageTitle botHost outcome s)))"
    unfolding tr
    by (simp add: is_request_def is_loading_def lbr_no_request after_request_no_request)
next
  assume t: "\<not> falsy pageTitle"
  from viewPage_trace [OF t] obtain rest where
    "trace_of (viewPage config pageTitle viewed s) =
       trace s @ SendRequest (viewPage_query config pageTitle) # rest"
    by blast
  then show "\<exists>rest.
              trace_of (viewPage config pageTitle viewed s) =
                trace s @ SendRequest (viewPage_query config pageTitle) # rest
              \<and> \<not> loading_before_request False
                    (SendRequest (viewPage_query config pageTitle) # rest)"
    by (auto simp: is_request_def)
qed

theorem loading_precedes_request_witness:
  "loading_before_request False
     (trace (getPreview example_config (Some ''wiki.example'') (Some ''wiki.example'')
               (Resolved categories_result) editing_state))
   \<and> trace (getPageView example_config (Some ''wiki.example'') (Some ''Foo'')
              (Some ''wiki.example'') (Resolved categories_result) editing_state) =
       [CreateWebviewPanel 0 ''pageViewer'' ''WikiViewer'',
        SetHtml 0 (showHtmlInfo ''Loading...''),
        BotRequest example_bot (page_args example_config (Some ''Foo''))] @
       after_request 0
         (getView_try example_config ''WikiViewer''
            (baseHref example_config (Some ''wiki.example'')) (Resolved categories_result))"
proof -
  have h: "\<not> falsy (Some ''wiki.example'')"
    by (simp add: falsy_def)
  have b: "getBot example_config (Some ''wiki.example'') editing_state = Some example_bot"
    by (simp add: getBot_def editing_state_def initial_state_def example_config_def
          example_bot_def falsy_def js_str_def)
  have d: "\<not> falsy (activeDocument editing_state)" and t: "\<not> falsy (Some ''Foo'')"
    and tr: "trace editing_state = []" and p: "panels editing_state = []"
    by (simp_all add: editing_state_def initial_state_def falsy_def)
  show ?thesis
    using loading_precedes_request [OF h b, of "Resolved categories_result" "Some ''Foo''"
        "End categories_result"] d t
    by (simp add: tr p)
qed

section \<open>The tracked preview panel\<close>

lemma replicate_update_same: "(replicate n x)[p := x] = replicate n x"
  by (cases "p < n") (simp_all add: list_update_same_conv list_update_beyond)

lemma inv_live:
  assumes "tracking_inv s" and "p < length (panels s)"
  shows "live_preview (panels s ! p) = (previewCurrentPlanel s = Some p)"
proof -
  have "live_preview (panels s ! p) = map live_preview (panels s) ! p"
    using assms(2) by simp
  also have "\<dots> = (previewCurrentPlanel s = Some p)"
  proof (cases "previewCurrentPlanel s")
    case None
    with assms show ?thesis by (simp add: tracking_inv_def)
  next
    case (Some q)
    with assms have "map live_preview (panels s) = (replicate (length (panels s)) False)[q := True]"
      and "q < length (panels s)"
      by (simp_all add: tracking_inv_def)
    with assms(2) Some show ?thesis by (auto simp: nth_list_update)
  qed
  finally show ?thesis .
qed

lemma inv_bound: "tracking_inv s \<Longrightarrow> previewCurrentPlanel s = Some p \<Longrightarrow> p < length (panels s)"
  by (simp add: tracking_inv_def)

lemma inv_extend:
  assumes "tracking_inv s"
    and "previewCurrentPlanel s' = previewCurrentPlanel s"
    and "map live_preview (panels s') = map live_preview (panels s) @ replicate k False"
  shows "tracking_inv s'"
proof -
  have len: "length (panels s') = length (panels s) + k"
    using arg_cong [OF assms(3), of length] by simp
  show ?thesis
  proof (cases "previewCurrentPlanel s")
    case None
    with assms len show ?thesis
      by (simp add: tracking_inv_def replicate_add)
  next
    case (Some q)
    with assms len show ?thesis
      by (simp add: tracking_inv_def replicate_add list_update_append)
  qed
qed

lemma flags_update_panel:
  "(\<And>w. live_preview (f w) = live_preview w) \<Longrightarrow>
   map live_preview (panels (update_panel p f s)) = map live_preview (panels s)"
  by (simp add: update_panel_def map_update list_update_same_conv)

lemma flags_set_html [simp]: "map live_preview (panels (set_html p h s)) = map live_preview (panels s)"
  by (simp add: set_html_def flags_update_panel live_preview_def)

lemma flags_set_title [simp]: "map live_preview (panels (set_title p h s)) = map live_preview (panels s)"
  by (simp add: set_title_def flags_update_panel live_preview_def)

lemma tracked_log [simp]: "previewCurrentPlanel (log e s) = previewCurrentPlanel s"
  by (simp add: log_def)

lemma tracked_update_panel [simp]: "previewCurrentPlanel (update_panel p f s) = previewCurrentPlanel s"
  by (simp add: update_panel_def)

lemma tracked_set_html [simp]: "previewCurrentPlanel (set_html p h s) = previewCurrentPlanel s"
  by (simp add: set_html_def)

lemma tracked_set_title [simp]: "previewCurrentPlanel (set_title p h s) = previewCurrentPlanel s"
  by (simp add: set_title_def)

lemma getView_flags:
  "map live_preview (panels (getView cp vt args tbot base config outcome s)) =
     map live_preview (panels s) @ (case cp of Panel q \<Rightarrow> [] | ViewType v \<Rightarrow> [False])"
  by (cases cp; cases "getView_try config vt base outcome")
     (auto simp: getView_def createWebviewPanel_def Let_def live_preview_def
           split: option.splits prod.splits)

lemma getView_tracked:
  "previewCurrentPlanel (getView cp vt args tbot base config outcome s) = previewCurrentPlanel s"
  by (cases cp; cases "getView_try config vt base outcome")
     (auto simp: getView_def createWebviewPanel_def Let_def
           split: option.splits prod.splits)

lemma take_update_panel:
  "n \<le> p \<Longrightarrow> take n (panels (update_panel p f s)) = take n (panels s)"
  by (simp add: update_panel_def)

lemma getView_ViewType_take:
  "take (length (panels s)) (panels (getView (ViewType v) vt args tbot base config outcome s)) =
     panels s"
  by (cases "getView_try config vt base outcome")
     (auto simp: getView_def createWebviewPanel_def Let_def set_html_def set_title_def log_def
           update_panel_def split: option.splits prod.splits)

lemma ensure_panel_flags:
  "map live_preview (panels (snd (ensure_panel config s))) =
     map live_preview (panels s) @ (case previewCurrentPlanel s of None \<Rightarrow> [True] | Some q \<Rightarrow> [])"
  by (simp add: ensure_panel_def createWebviewPanel_def update_panel_def live_preview_def
        split: option.splits)

lemma ensure_panel_length:
  "length (panels (snd (ensure_panel config s))) =
     length (panels s) + (case previewCurrentPlanel s of None \<Rightarrow> 1 | Some q \<Rightarrow> 0)"
  by (simp add: ensure_panel_def createWebviewPanel_def split: option.splits)

lemma ensure_panel_inv: "tracking_inv s \<Longrightarrow> tracking_inv (snd (ensure_panel config s))"
proof (cases "previewCurrentPlanel s")
  case None
  assume "tracking_inv s"
  with None have fl: "map live_preview (panels s) = replicate (length (panels s)) False"
    by (simp add: tracking_inv_def)
  have "map live_preview (panels (snd (ensure_panel config s))) =
          replicate (length (panels s)) False @ [True]"
    using None fl by (simp add: ensure_panel_flags)
  also have "\<dots> = (replicate (Suc (length (panels s))) False)[length (panels s) := True]"
    by (simp add: replicate_append_same [symmetric] list_update_append)
  finally show ?thesis
    using None
    by (simp add: tracking_inv_def ensure_panel_tracked ensure_panel_fst ensure_panel_length)
next
  case (Some q)
  assume "tracking_inv s"
  with Some show ?thesis by (simp add: ensure_panel_def)
qed

lemma getView_inv:
  assumes "tracking_inv s"
  shows "tracking_inv (getView cp vt args tbot base config outcome s)"
proof (rule inv_extend [OF assms, where k = "case cp of Panel q \<Rightarrow> 0 | ViewType v \<Rightarrow> 1"])
  show "previewCurrentPlanel (getView cp vt args tbot base config outcome s) = previewCurrentPlanel s"
    by (rule getView_tracked)
  show "map live_preview (panels (getView cp vt args tbot base config outcome s)) =
          map live_preview (panels s) @ replicate (case cp of Panel q \<Rightarrow> 0 | ViewType v \<Rightarrow> 1) False"
    by (cases cp) (simp_all add: getView_flags)
qed

lemma getPreview_cases:
  "getPreview config host botHost outcome s = s
   \<or> getPreview config host botHost outcome s = snd (ensure_panel config s)
   \<or> (\<exists>tbot args. getPreview config host botHost outcome s =
          getView (Panel (fst (ensure_panel config s))) ''WikitextPreviewer'' args tbot
            (baseHref config host) config outcome (snd (ensure_panel config s)))"
proof (cases "falsy host \<or> falsy (activeDocument s)")
  case True
  then show ?thesis by (auto simp: getPreview_def)
next
  case False
  show ?thesis
  proof (cases "getBot config botHost (snd (ensure_panel config s))")
    case None
    with False show ?thesis by (simp add: getPreview_def Let_def split_beta)
  next
    case (Some tbot)
    with False have "getPreview config host botHost outcome s =
          getView (Panel (fst (ensure_panel config s))) ''WikitextPreviewer''
            (preview_args config (regex_remove_first PAGE_INFO_regex (js_str (activeDocument s))))
            tbot (baseHref config host) config outcome (snd (ensure_panel config s))"
      by (simp add: getPreview_def Let_def split_beta)
    then show ?thesis by blast
  qed
qed

lemma getPreview_inv:
  assumes "tracking_inv s"
  shows "tracking_inv (getPreview config host botHost outcome s)"
  using getPreview_cases [of config host botHost outcome s] assms
  by (auto simp: ensure_panel_inv getView_inv)

lemma getPageView_cases:
  "getPageView config host pageTitle botHost outcome s = s
   \<or> (\<exists>tbot. getPageView config host pageTitle botHost outcome s =
          getView (ViewType ''pageViewer'') ''WikiViewer'' (page_args config pageTitle) tbot
            (baseHref config host) config outcome s)"
  by (cases "getBot config botHost s") (auto simp: getPageView_def)

lemma getPageView_inv:
  assumes "tracking_inv s"
  shows "tracking_inv (getPageView config host pageTitle botHost outcome s)"
  using getPageView_cases [of config host pageTitle botHost outcome s] assms
  by (auto simp: getView_inv)

lemma dispose_panel_inv:
  assumes "tracking_inv s"
  shows "tracking_inv (dispose_panel p s)"
proof (cases "p < length (panels s) \<and> \<not> disposed (panels s ! p)")
  case False
  with assms show ?thesis by (auto simp: dispose_panel_def)
next
  case True
  then have p: "p < length (panels s)" and open_p: "\<not> disposed (panels s ! p)" by simp_all
  have fl: "map live_preview (panels (update_panel p (\<lambda>w. w\<lparr>disposed := True\<rparr>) s)) =
              (map live_preview (panels s))[p := False]"
    using p by (simp add: update_panel_def map_update live_preview_def)
  show ?thesis
  proof (cases "onDidDispose_registered (panels s ! p)")
    case reg: True
    then have "live_preview (panels s ! p)" using open_p by (simp add: live_preview_def)
    then have tr: "previewCurrentPlanel s = Some p" using inv_live [OF assms p] by simp
    with assms have "map live_preview (panels s) = (replicate (length (panels s)) False)[p := True]"
      by (simp add: tracking_inv_def)
    then have "(map live_preview (panels s))[p := False] = replicate (length (panels s)) False"
      by (simp add: replicate_update_same)
    with True reg fl show ?thesis
      by (simp add: dispose_panel_def Let_def tracking_inv_def)
  next
    case notreg: False
    then have "\<not> live_preview (panels s ! p)" by (simp add: live_preview_def)
    then have "(map live_preview (panels s))[p := False] = map live_preview (panels s)"
      using p by (simp add: list_update_same_conv)
    with fl have "map live_preview (panels (update_panel p (\<lambda>w. w\<lparr>disposed := True\<rparr>) s)) =
                    map live_preview (panels s) @ replicate 0 False"
      by simp
    from inv_extend [OF assms _ this] True notreg show ?thesis
      by (simp add: dispose_panel_def Let_def)
  qed
qed

lemma edit_inv: "tracking_inv s \<Longrightarrow> tracking_inv (s\<lparr>activeDocument := d\<rparr>)"
  by (simp add: tracking_inv_def split: option.splits)

lemma run_inv: "tracking_inv s \<Longrightarrow> tracking_inv (run c s)"
  by (cases c) (simp_all add: getPreview_inv getPageView_inv dispose_panel_inv edit_inv)

lemma run_all_inv: "tracking_inv s \<Longrightarrow> tracking_inv (run_all cs s)"
  by (induction cs arbitrary: s) (simp_all add: run_inv)

lemma activated_inv: "activated s \<Longrightarrow> tracking_inv s"
  by (simp add: activated_def tracking_inv_def)


lemma getPreview_length:
  "length (panels (getPreview config host botHost outcome s)) =
     (if falsy host \<or> falsy (activeDocument s) then length (panels s)
      else length (panels s) + (case previewCurrentPlanel s of None \<Rightarrow> 1 | Some q \<Rightarrow> 0))"
  by (auto simp: getPreview_def Let_def split_beta ensure_panel_length getView_length
        split: option.splits)

lemma getPreview_tracked:
  "previewCurrentPlanel (getPreview config host botHost outcome s) =
     (if falsy host \<or> falsy (activeDocument s) then previewCurrentPlanel s
      else Some (case previewCurrentPlanel s of None \<Rightarrow> length (panels s) | Some q \<Rightarrow> q))"
  by (auto simp: getPreview_def Let_def split_beta ensure_panel_tracked ensure_panel_fst
        getView_tracked split: option.splits)

lemma getView_doc:
  "activeDocument (getView cp vt args tbot base config outcome s) = activeDocument s"
  by (cases cp; cases "getView_try config vt base outcome")
     (auto simp: getView_def createWebviewPanel_def Let_def split: option.splits prod.splits)

lemma getView_bot:
  "bot_ts (getView cp vt args tbot base config outcome s) = bot_ts s"
  by (cases cp; cases "getView_try config vt base outcome")
     (auto simp: getView_def createWebviewPanel_def Let_def split: option.splits prod.splits)

lemma ensure_panel_doc: "activeDocument (snd (ensure_panel config s)) = activeDocument s"
  by (simp add: ensure_panel_def createWebviewPanel_def split: option.splits)

lemma getPreview_doc:
  "activeDocument (getPreview config host botHost outcome s) = activeDocument s"
  using getPreview_cases [of config host botHost outcome s]
  by (auto simp: ensure_panel_doc getView_doc)

lemma getPreview_bot:
  "bot_ts (getPreview config host botHost outcome s) = bot_ts s"
  using getPreview_cases [of config host botHost outcome s]
  by (auto simp: ensure_panel_bot getView_bot)

lemma reg_update_panel:
  "(\<And>w. onDidDispose_registered (f w) = onDidDispose_registered w) \<Longrightarrow>
   map onDidDispose_registered (panels (update_panel p f s)) =
     map onDidDispose_registered (panels s)"
  by (simp add: update_panel_def map_update list_update_same_conv)

lemma reg_set_html [simp]:
  "map onDidDispose_registered (panels (set_html p h s)) = map onDidDispose_registered (panels s)"
  by (simp add: set_html_def reg_update_panel)

lemma reg_set_title [simp]:
  "map onDidDispose_registered (panels (set_title p h s)) = map onDidDispose_registered (panels s)"
  by (simp add: set_title_def reg_update_panel)

lemma getView_reg:
  "prefix (map onDidDispose_registered (panels s))
     (map onDidDispose_registered (panels (getView cp vt args tbot base config outcome s)))"
  by (cases cp; cases "getView_try config vt base outcome")
     (auto simp: getView_def createWebviewPanel_def Let_def split: option.splits prod.splits)

lemma ensure_panel_reg:
  "prefix (map onDidDispose_registered (panels s))
     (map onDidDispose_registered (panels (snd (ensure_panel config s))))"
  by (simp add: ensure_panel_def createWebviewPanel_def update_panel_def split: option.splits)

lemma dispose_panel_reg:
  "map onDidDispose_registered (panels (dispose_panel p s)) =
     map onDidDispose_registered (panels s)"
  by (simp add: dispose_panel_def Let_def reg_update_panel)

lemma run_reg:
  "prefix (map onDidDispose_registered (panels s)) (map onDidDispose_registered (panels (run c s)))"
proof (cases c)
  case (GetPreview config host botHost outcome)
  from getPreview_cases [of config host botHost outcome s] show ?thesis
    unfolding GetPreview run.simps
    by (auto intro: ensure_panel_reg prefix_order.trans [OF ensure_panel_reg getView_reg])
next
  case (GetPageView config host pageTitle botHost outcome)
  from getPageView_cases [of config host pageTitle botHost outcome s] show ?thesis
    unfolding GetPageView run.simps
    by (auto intro: getView_reg)
next
  case (ClosePanel p)
  then show ?thesis by (simp add: dispose_panel_reg)
next
  case (EditDocument d)
  then show ?thesis by simp
qed

lemma prefix_nth: "prefix xs ys \<Longrightarrow> n < length xs \<Longrightarrow> ys ! n = xs ! n"
  by (auto simp: prefix_def nth_append)

lemma run_reg_nth:
  assumes "q < length (panels s)"
  shows "q < length (panels (run c s))
       \<and> onDidDispose_registered (panels (run c s) ! q) = onDidDispose_registered (panels s ! q)"
proof -
  note p = run_reg [of s c]
  from prefix_length_le [OF p] assms have l: "q < length (panels (run c s))" by simp
  from prefix_nth [OF p] assms
  have "map onDidDispose_registered (panels (run c s)) ! q =
          map onDidDispose_registered (panels s) ! q" by simp
  with l assms show ?thesis by simp
qed

lemma getView_others:
  assumes "q < length (panels s)" and "q \<noteq> target cp s"
  shows "panels (getView cp vt args tbot base config outcome s) ! q = panels s ! q"
  using assms
  by (cases cp; cases "getView_try config vt base outcome")
     (auto simp: getView_def createWebviewPanel_def Let_def set_html_def set_title_def log_def
           update_panel_def target_def nth_append split: option.splits prod.splits)

lemma ensure_panel_others:
  assumes "q < length (panels s)"
  shows "panels (snd (ensure_panel config s)) ! q = panels s ! q"
  using assms
  by (simp add: ensure_panel_def createWebviewPanel_def update_panel_def log_def nth_append
        split: option.splits)

lemma dispose_panel_content:
  "panel_html (panels (dispose_panel p s) ! q) = panel_html (panels s ! q)
   \<and> panel_title (panels (dispose_panel p s) ! q) = panel_title (panels s ! q)"
  by (cases "q = p") (simp_all add: dispose_panel_def Let_def update_panel_def)

lemma run_content:
  assumes "q < length (panels s)" and "previewCurrentPlanel s \<noteq> Some q"
  shows "panel_html (panels (run c s) ! q) = panel_html (panels s ! q)
       \<and> panel_title (panels (run c s) ! q) = panel_title (panels s ! q)"
proof (cases c)
  case (GetPreview config host botHost outcome)
  have t: "q \<noteq> target (Panel (fst (ensure_panel config s))) (snd (ensure_panel config s))"
    using assms by (auto simp: target_def ensure_panel_fst split: option.splits)
  have l: "q < length (panels (snd (ensure_panel config s)))"
    using assms(1) by (simp add: ensure_panel_length)
  from getPreview_cases [of config host botHost outcome s] show ?thesis
    unfolding GetPreview run.simps
    using getView_others [OF l t] ensure_panel_others [OF assms(1)]
    by auto
next
  case (GetPageView config host pageTitle botHost outcome)
  have t: "q \<noteq> target (ViewType ''pageViewer'') s"
    using assms(1) by (simp add: target_def)
  from getPageView_cases [of config host pageTitle botHost outcome s] show ?thesis
    unfolding GetPageView run.simps
    using getView_others [OF assms(1) t]
    by auto
next
  case (ClosePanel p)
  then show ?thesis by (simp add: dispose_panel_content)
next
  case (EditDocument d)
  then show ?thesis by simp
qed

lemma untracked_forever:
  assumes "tracking_inv s" and "q < length (panels s)"
    and "\<not> onDidDispose_registered (panels s ! q)"
  shows "previewCurrentPlanel (run_all cs s) \<noteq> Some q
       \<and> panel_html (panels (run_all cs s) ! q) = panel_html (panels s ! q)
       \<and> panel_title (panels (run_all cs s) ! q) = panel_title (panels s ! q)"
  using assms
proof (induction cs arbitrary: s)
  case Nil
  from inv_live [OF Nil(1,2)] Nil(3) show ?case
    by (auto simp: live_preview_def)
next
  case (Cons c cs)
  from inv_live [OF Cons.prems(1,2)] Cons.prems(3) have nt: "previewCurrentPlanel s \<noteq> Some q"
    by (auto simp: live_preview_def)
  note step = run_reg_nth [OF Cons.prems(2), of c]
  have "previewCurrentPlanel (run_all cs (run c s)) \<noteq> Some q
       \<and> panel_html (panels (run_all cs (run c s)) ! q) = panel_html (panels (run c s) ! q)
       \<and> panel_title (panels (run_all cs (run c s)) ! q) = panel_title (panels (run c s) ! q)"
    using step Cons.prems(3) by (intro Cons.IH run_inv [OF Cons.prems(1)]) simp_all
  with run_content [OF Cons.prems(2) nt, of c] show ?case by simp
qed

text \<open>
  Claim C6. At most one preview panel is tracked: it is created on the first
  preview request, every later preview request uses it again until the user
  closes it, which clears the reference so that the next request creates a new
  one; every page view creates a panel of its own that is never tracked or used
  again.

  Let \<open>s\<close> be a state that commands of the user (preview requests, page
  views, closing a panel, changing the document) lead to from the activation of
  the extension, \<open>w\<close> the state after a preview request in \<open>s\<close> and \<open>v\<close> the
  state after a page view in \<open>s\<close>. In \<open>s\<close> an open preview panel is exactly
  the panel in \<^verbatim>\<open>previewCurrentPlanel\<close>, which is a panel that exists. A preview
  request that passes its checks with nothing tracked creates one panel and
  tracks it. With a panel tracked, a preview request keeps it tracked and
  creates none, and its loading placeholder, its request and the result go to
  that panel. Closing the tracked panel clears the reference. A page view that
  passes its checks adds one panel, leaves all others and the reference as they
  are, and whatever commands follow, the new panel is never tracked and keeps
  its content and its title.
\<close>

theorem single_tracked_preview:
  assumes "activated s0" and "s = run_all cs s0"
    and "w = getPreview config host botHost outcome s"
    and "v = getPageView config host pageTitle botHost outcome s"
  shows "(\<forall>p < length (panels s).
            live_preview (panels s ! p) = (previewCurrentPlanel s = Some p))
       \<and> (\<forall>p. previewCurrentPlanel s = Some p \<longrightarrow> p < length (panels s))
       \<and> (\<not> falsy host \<and> \<not> falsy (activeDocument s) \<and> previewCurrentPlanel s = None \<longrightarrow>
            previewCurrentPlanel w = Some (length (panels s))
            \<and> length (panels w) = Suc (length (panels s)))
       \<and> (\<forall>p. previewCurrentPlanel s = Some p \<longrightarrow>
              previewCurrentPlanel w = Some p \<and> length (panels w) = length (panels s))
       \<and> (\<forall>p tbot.
              previewCurrentPlanel s = Some p \<and> \<not> falsy host \<and> \<not> falsy (activeDocument s)
              \<and> getBot config botHost s = Some tbot \<longrightarrow>
              trace w =
                trace s @
                [SetHtml p (showHtmlInfo ''Loading...''),
                 BotRequest tbot
                   (preview_args config
                      (regex_remove_first PAGE_INFO_regex (js_str (activeDocument s))))] @
                after_request p
                  (getView_try config ''WikitextPreviewer'' (baseHref config host) outcome))
       \<and> (\<forall>p. previewCurrentPlanel s = Some p \<longrightarrow>
              previewCurrentPlanel (dispose_panel p s) = None
              \<and> length (panels (dispose_panel p s)) = length (panels s))
       \<and> (\<not> falsy host \<and> \<not> falsy pageTitle \<and> getBot config botHost s \<noteq> None \<longrightarrow>
            length (panels v) = Suc (length (panels s))
            \<and> take (length (panels s)) (panels v) = panels s
            \<and> previewCurrentPlanel v = previewCurrentPlanel s
            \<and> (\<forall>later.
                  previewCurrentPlanel (run_all later v) \<noteq> Some (length (panels s))
                  \<and> panel_html (panels (run_all later v) ! length (panels s)) =
                      panel_html (panels v ! length (panels s))
                  \<and> panel_title (panels (run_all later v) ! length (panels s)) =
                      panel_title (panels v ! length (panels s))))"
proof -
  have inv: "tracking_inv s"
    using assms(1,2) by (simp add: run_all_inv activated_inv)
  have a: "\<forall>p < length (panels s).
            live_preview (panels s ! p) = (previewCurrentPlanel s = Some p)"
    using inv_live [OF inv] by blast
  have b: "\<forall>p. previewCurrentPlanel s = Some p \<longrightarrow> p < length (panels s)"
    using inv_bound [OF inv] by blast
  have c: "\<not> falsy host \<and> \<not> falsy (activeDocument s) \<and> previewCurrentPlanel s = None \<longrightarrow>
            previewCurrentPlanel w = Some (length (panels s))
            \<and> length (panels w) = Suc (length (panels s))"
    unfolding assms(3) by (simp add: getPreview_length getPreview_tracked)
  have d: "\<forall>p. previewCurrentPlanel s = Some p \<longrightarrow>
              previewCurrentPlanel w = Some p \<and> length (panels w) = length (panels s)"
    unfolding assms(3) by (simp add: getPreview_length getPreview_tracked)
  have e: "\<forall>p tbot.
              previewCurrentPlanel s = Some p \<and> \<not> falsy host \<and> \<not> falsy (activeDocument s)
              \<and> getBot config botHost s = Some tbot \<longrightarrow>
              trace w =
                trace s @
                [SetHtml p (showHtmlInfo ''Loading...''),
                 BotRequest tbot
                   (preview_args config
                      (regex_remove_first PAGE_INFO_regex (js_str (activeDocument s))))] @
                after_request p
                  (getView_try config ''WikitextPreviewer'' (baseHref config host) outcome)"
  proof (intro allI impI, elim conjE)
    fix p tbot
    assume h: "previewCurrentPlanel s = Some p" "\<not> falsy host" "\<not> falsy (activeDocument s)"
      "getBot config botHost s = Some tbot"
    show "trace w =
                trace s @
                [SetHtml p (showHtmlInfo ''Loading...''),
                 BotRequest tbot
                   (preview_args config
                      (regex_remove_first PAGE_INFO_regex (js_str (activeDocument s))))] @
                after_request p
                  (getView_try config ''WikitextPreviewer'' (baseHref config host) outcome)"
      unfolding assms(3) using h(1)
      by (simp add: getPreview_run [OF h(2,3,4)] getView_trace ensure_panel_trace ensure_panel_fst
            target_def creation_def)
  qed
  have f: "\<forall>p. previewCurrentPlanel s = Some p \<longrightarrow>
              previewCurrentPlanel (dispose_panel p s) = None
              \<and> length (panels (dispose_panel p s)) = length (panels s)"
  proof (intro allI impI)
    fix p assume t: "previewCurrentPlanel s = Some p"
    then have p: "p < length (panels s)" using b by blast
    with a t have "live_preview (panels s ! p)" by blast
    with p show "previewCurrentPlanel (dispose_panel p s) = None
              \<and> length (panels (dispose_panel p s)) = length (panels s)"
      by (simp add: dispose_panel_def Let_def live_preview_def)
  qed
  have g: "\<not> falsy host \<and> \<not> falsy pageTitle \<and> getBot config botHost s \<noteq> None \<longrightarrow>
            length (panels v) = Suc (length (panels s))
            \<and> take (length (panels s)) (panels v) = panels s
            \<and> previewCurrentPlanel v = previewCurrentPlanel s
            \<and> (\<forall>later.
                  previewCurrentPlanel (run_all later v) \<noteq> Some (length (panels s))
                  \<and> panel_html (panels (run_all later v) ! length (panels s)) =
                      panel_html (panels v ! length (panels s))
                  \<and> panel_title (panels (run_all later v) ! length (panels s)) =
                      panel_title (panels v ! length (panels s)))"
  proof (intro impI, elim conjE)
    assume h: "\<not> falsy host" "\<not> falsy pageTitle" "getBot config botHost s \<noteq> None"
    then obtain tbot where tb: "getBot config botHost s = Some tbot" by blast
    have run: "v = getView (ViewType ''pageViewer'') ''WikiViewer'' (page_args config pageTitle)
                     tbot (baseHref config host) config outcome s"
      unfolding assms(4) by (rule getPageView_run [OF h(1) h(2) tb])
    have len: "length (panels v) = Suc (length (panels s))"
      by (simp add: run getView_length)
    have fl: "map live_preview (panels v) = map live_preview (panels s) @ [False]"
      by (simp add: run getView_flags)
    have invv: "tracking_inv v"
      unfolding run by (rule getView_inv [OF inv])
    have "map live_preview (panels v) ! length (panels s) = False"
      unfolding fl by (simp add: nth_append)
    then have nl: "\<not> live_preview (panels v ! length (panels s))"
      using len by simp
    have "\<not> disposed (panels v ! length (panels s))"
      unfolding run
      by (cases "getView_try config ''WikiViewer'' (baseHref config host) outcome")
         (auto simp: getView_def createWebviewPanel_def Let_def set_html_def set_title_def log_def
               update_panel_def split: option.splits prod.splits)
    with nl have nr: "\<not> onDidDispose_registered (panels v ! length (panels s))"
      by (simp add: live_preview_def)
    have n: "length (panels s) < length (panels v)"
      using len by simp
    have later: "\<forall>later.
                  previewCurrentPlanel (run_all later v) \<noteq> Some (length (panels s))
                  \<and> panel_html (panels (run_all later v) ! length (panels s)) =
                      panel_html (panels v ! length (panels s))
                  \<and> panel_title (panels (run_all later v) ! length (panels s)) =
                      panel_title (panels v ! length (panels s))"
      using untracked_forever [OF invv n nr] by blast
    have tk: "take (length (panels s)) (panels v) = panels s"
      by (simp add: run getView_ViewType_take)
    have tr: "previewCurrentPlanel v = previewCurrentPlanel s"
      by (simp add: run getView_tracked)
    from len tk tr later
    show "length (panels v) = Suc (length (panels s))
            \<and> take (length (panels s)) (panels v) = panels s
            \<and> previewCurrentPlanel v = previewCurrentPlanel s
            \<and> (\<forall>later.
                  previewCurrentPlanel (run_all later v) \<noteq> Some (length (panels s))
                  \<and> panel_html (panels (run_all later v) ! length (panels s)) =
                      panel_html (panels v ! length (panels s))
                  \<and> panel_title (panels (run_all later v) ! length (panels s)) =
                      panel_title (panels v ! length (panels s)))"
      by (intro conjI)
  qed
  show ?thesis
    apply (rule conjI [OF a])
    apply (rule conjI [OF b])
    apply (rule conjI [OF c])
    apply (rule conjI [OF d])
    apply (rule conjI [OF e])
    apply (rule conjI [OF f])
    apply (rule g)
    done
qed

theorem single_tracked_preview_witness:
  "previewCurrentPlanel (run_all example_session initial_state) = Some 0
   \<and> live_preview (panels (run_all example_session initial_state) ! 0)
   \<and> previewCurrentPlanel
        (getPreview example_config (Some ''wiki.example'') (Some ''wiki.example'')
           (Resolved categories_result) (run_all example_session initial_state)) = Some 0
   \<and> length (panels
        (getPreview example_config (Some ''wiki.example'') (Some ''wiki.example'')
           (Resolved categories_result) (run_all example_session initial_state))) = 1
   \<and> previewCurrentPlanel (dispose_panel 0 (run_all example_session initial_state)) = None
   \<and> length (panels
        (getPageView example_config (Some ''wiki.example'') (Some ''Foo'') (Some ''wiki.example'')
           (Resolved categories_result) (run_all example_session initial_state))) = 2
   \<and> previewCurrentPlanel
        (run_all example_session
          (getPageView example_config (Some ''wiki.example'') (Some ''Foo'') (Some ''wiki.example'')
            (Resolved categories_result) (run_all example_session initial_state))) \<noteq> Some 1"
proof -
  let ?s = "run_all example_session initial_state"
  have act: "activated initial_state"
    by (simp add: activated_def initial_state_def)
  have s: "?s = getPreview example_config (Some ''wiki.example'') (Some ''wiki.example'')
                  (Resolved categories_result) (initial_state\<lparr>activeDocument := Some ''Hi''\<rparr>)"
    by (simp add: example_session_def)
  have h: "\<not> falsy (Some ''wiki.example'')" and t: "\<not> falsy (Some ''Foo'')"
    by (simp_all add: falsy_def)
  have doc: "activeDocument ?s = Some ''Hi''"
    by (simp add: s getPreview_doc)
  have d: "\<not> falsy (activeDocument ?s)"
    by (simp add: doc falsy_def)
  have tr: "previewCurrentPlanel ?s = Some 0"
    unfolding s by (simp add: getPreview_tracked falsy_def initial_state_def)
  have len: "length (panels ?s) = 1"
    unfolding s by (simp add: getPreview_length falsy_def initial_state_def)
  have b: "getBot example_config (Some ''wiki.example'') ?s \<noteq> None"
    by (simp add: getBot_def falsy_def split: option.splits)
  note th = single_tracked_preview [where cs = example_session and config = example_config
        and host = "Some ''wiki.example''" and botHost = "Some ''wiki.example''"
        and outcome = "Resolved categories_result" and pageTitle = "Some ''Foo''",
        OF act refl refl refl]
  from th have later: "\<forall>later. previewCurrentPlanel
        (run_all later
          (getPageView example_config (Some ''wiki.example'') (Some ''Foo'') (Some ''wiki.example'')
            (Resolved categories_result) ?s)) \<noteq> Some (length (panels ?s))"
    using h t b by blast
  show ?thesis
    using th h t d tr len b later [rule_format, of example_session]
    by simp
qed

section \<open>Reading a page that does not exist\<close>

lemma and_then_Inr [simp]: "and_then (Inr x) k = k x"
  by (simp add: and_then_def)

lemma and_then_Inl [simp]: "and_then (Inl e) k = Inl e"
  by (simp add: and_then_def)

lemma page0_eq:
  assumes "api re = Some a" and "api_query a = Some (q # qs)"
    and "query_pages q = Some (pg # pgs)" and "pages_page pg = Some (p # ps)"
  shows "page0 re = Inr (Some p)"
  using assms by (simp add: page0_def query0_def prop_of_def and_then_def first_def)

lemma page_attr_eq:
  assumes "page0 re = Inr (Some p)" and "page_dollar p = Some d"
  shows "page_attr re f = Inr (f d)"
  using assms by (simp add: page_attr_def prop_of_def and_then_def opt_member_def)

text \<open>
  Claim C8. For an answer that marks the page as missing or invalid, the result
  is a warning that names the title and the reason of invalidity, if one is
  given, and no document is produced.

  When the answer has no interwiki entry and the first page of its first query
  carries \<^verbatim>\<open>missing\<close> or \<^verbatim>\<open>invalid\<close>, \<^verbatim>\<open>readPage\<close> sends its query and then only
  shows one warning: the sentence with the title of that page, followed by the
  reason. No document is opened and \<^verbatim>\<open>pageName\<close> keeps its value. (The reason is
  appended with \<^verbatim>\<open>+\<close> before \<^verbatim>\<open>||\<close> applies, so an answer without reason ends
  the sentence with the text \<^verbatim>\<open>undefined\<close>.)
\<close>

theorem missing_page_warning:
  assumes "api re = Some a" and "api_query a = Some (q # qs)" and "query_interwiki q = None"
    and "query_pages q = Some (pg # pgs)" and "pages_page pg = Some (p # ps)"
    and "page_dollar p = Some d"
    and "page_missing d \<noteq> None \<or> page_invalid d \<noteq> None"
    and "\<not> falsy title"
  shows \<open>readPage config title (End re) s =
           Inr (log (ShowWarningMessage
                      (''The page "'' @ js_str (page_title d) @
                       ''" you are looking for does not exist.'' @
                       js_str (page_invalidreason d)))
                  (log (SendRequest (readPage_query config title)) s))\<close>
proof -
  note p0 = page0_eq [OF assms(1,2,4,5)]
  note attr = page_attr_eq [OF p0 assms(6)]
  have iw: "opt_chain (api re) (\<lambda>a. opt_chain (api_query a) (\<lambda>qs. prop_of (first qs) query_interwiki))
              = Inr None"
    using assms(1,2,3) by (simp add: opt_chain_def prop_of_def first_def)
  have pg: "opt_chain (api re) (\<lambda>a.
              opt_chain (api_query a) (\<lambda>qs.
              and_then (prop_of (first qs) query_pages) (\<lambda>ps.
              opt_chain ps (\<lambda>pl. prop_of (first pl) pages_page)))) = Inr (Some (p # ps))"
    using assms(1,2,4,5) by (simp add: opt_chain_def prop_of_def first_def and_then_def)
  have ne: \<open>readPage_notExist (page_title d) re s' =
              Inr (log (ShowWarningMessage
                      (''The page "'' @ js_str (page_title d) @
                       ''" you are looking for does not exist.'' @
                       js_str (page_invalidreason d))) s')\<close> for s'
    by (simp add: readPage_notExist_def attr or_else_def)
  have "readPage_end re s' = readPage_notExist (page_title d) re s'" for s'
    using assms(7) by (auto simp: readPage_end_def iw pg attr)
  with ne assms(8) show ?thesis
    by (simp add: readPage_def)
qed

theorem missing_page_warning_witness:
  \<open>readPage example_config (Some ''Foo'') (End missing_page_result) initial_state =
     Inr (log (ShowWarningMessage ''The page "Foo" you are looking for does not exist.undefined'')
            (log (SendRequest (readPage_query example_config (Some ''Foo''))) initial_state))\<close>
proof -
  have a: "api missing_page_result = Some \<lparr>api_query = Some
        [\<lparr>query_interwiki = None,
          query_pages = Some [\<lparr>pages_page = Some [missing_page]\<rparr>],
          query_normalized = None, query_redirects = None\<rparr>]\<rparr>"
    by (simp add: missing_page_result_def)
  have d: "page_dollar missing_page = Some \<lparr>page_title = Some ''Foo'', page_missing = Some [], page_invalid = None,
                          page_invalidreason = None, page_pageid = None\<rparr>"
    by (simp add: missing_page_def)
  have t: "\<not> falsy (Some ''Foo'')" by (simp add: falsy_def)
  show ?thesis
    using missing_page_warning [OF a _ _ _ _ d _ t, of _ "[]" _ "[]" "[]" example_config initial_state]
    by (simp add: js_str_def)
qed

section \<open>The text of the preview\<close>

lemma nonempty_in: "xs \<noteq> [] \<Longrightarrow> \<exists>r. r \<in> set xs"
  by (cases xs) auto

lemma in_nonempty: "r \<in> set xs \<Longrightarrow> xs \<noteq> []"
  by auto

lemma in_space_star: "r \<in> set (space_star s) \<Longrightarrow> \<exists>ws. spaces ws \<and> s = ws @ r"
proof (induction s)
  case Nil
  then show ?case by (simp add: spaces_def)
next
  case (Cons c cs)
  show ?case
  proof (cases "r = c # cs")
    case True
    then show ?thesis by (auto simp: spaces_def intro: exI [of _ "[]"])
  next
    case False
    with Cons.prems have c: "is_space c" and "r \<in> set (space_star cs)"
      by (auto split: if_splits)
    with Cons.IH obtain ws where "spaces ws" "cs = ws @ r" by blast
    with c have "spaces (c # ws) \<and> c # cs = (c # ws) @ r" by (simp add: spaces_def)
    then show ?thesis by blast
  qed
qed

lemma in_any_lazy: "r \<in> set (any_lazy s) \<Longrightarrow> \<exists>m. s = m @ r"
proof (induction s)
  case Nil
  then show ?case by simp
next
  case (Cons c cs)
  then show ?case
  proof (cases "r = c # cs")
    case True
    then show ?thesis by simp
  next
    case False
    with Cons obtain m where "cs = m @ r" by auto
    then have "c # cs = (c # m) @ r" by simp
    then show ?thesis by blast
  qed
qed

lemma in_match_Lit: "r \<in> set (match_seq (Lit l # as) s) \<Longrightarrow> \<exists>t. s = l @ t \<and> r \<in> set (match_seq as t)"
  by (auto simp: prefix_def split: if_splits)

lemma in_match_SpaceStar:
  "r \<in> set (match_seq (SpaceStar # as) s) \<Longrightarrow> \<exists>ws t. spaces ws \<and> s = ws @ t \<and> r \<in> set (match_seq as t)"
  using in_space_star by fastforce

lemma in_match_AnyLazy:
  "r \<in> set (match_seq (AnyLazy # as) s) \<Longrightarrow> \<exists>m t. s = m @ t \<and> r \<in> set (match_seq as t)"
  using in_any_lazy by fastforce

lemma closing_sound:
  assumes "match_seq [Lit ''[END_PAGE_INFO]'', SpaceStar, Lit ''--%>'', SpaceStar] t \<noteq> []"
  shows "block_end_at t"
proof -
  from nonempty_in [OF assms] obtain r
    where "r \<in> set (match_seq [Lit ''[END_PAGE_INFO]'', SpaceStar, Lit ''--%>'', SpaceStar] t)"
    by blast
  then obtain t1 where t1: "t = ''[END_PAGE_INFO]'' @ t1"
      and "r \<in> set (match_seq [SpaceStar, Lit ''--%>'', SpaceStar] t1)"
    using in_match_Lit by blast
  then obtain ws t2 where ws: "spaces ws" "t1 = ws @ t2"
      and "r \<in> set (match_seq [Lit ''--%>'', SpaceStar] t2)"
    using in_match_SpaceStar by blast
  then obtain t3 where "t2 = ''--%>'' @ t3"
    using in_match_Lit by blast
  with t1 ws show ?thesis
    unfolding block_end_at_def by blast
qed

lemma regex_sound:
  assumes "match_seq PAGE_INFO_regex t \<noteq> []"
  shows "block_at t"
proof -
  from nonempty_in [OF assms] obtain r where "r \<in> set (match_seq PAGE_INFO_regex t)"
    by blast
  then obtain t1 where t1: "t = ''<%--'' @ t1"
      and "r \<in> set (match_seq [SpaceStar, Lit ''[PAGE_INFO]'', AnyLazy,
              Lit ''[END_PAGE_INFO]'', SpaceStar, Lit ''--%>'', SpaceStar] t1)"
    unfolding PAGE_INFO_regex_def using in_match_Lit by blast
  then obtain ws t2 where ws: "spaces ws" "t1 = ws @ t2"
      and "r \<in> set (match_seq [Lit ''[PAGE_INFO]'', AnyLazy,
              Lit ''[END_PAGE_INFO]'', SpaceStar, Lit ''--%>'', SpaceStar] t2)"
    using in_match_SpaceStar by blast
  then obtain t3 where t3: "t2 = ''[PAGE_INFO]'' @ t3"
      and "r \<in> set (match_seq [AnyLazy,
              Lit ''[END_PAGE_INFO]'', SpaceStar, Lit ''--%>'', SpaceStar] t3)"
    using in_match_Lit by blast
  then obtain mid t4 where t4: "t3 = mid @ t4"
      and r4: "r \<in> set (match_seq [Lit ''[END_PAGE_INFO]'', SpaceStar, Lit ''--%>'', SpaceStar] t4)"
    using in_match_AnyLazy by blast
  from r4 have "match_seq [Lit ''[END_PAGE_INFO]'', SpaceStar, Lit ''--%>'', SpaceStar] t4 \<noteq> []"
    by (rule in_nonempty)
  then have "block_end_at t4" by (rule closing_sound)
  with t1 ws t3 t4 show ?thesis
    unfolding block_at_def by blast
qed


lemma concat_map_Nil: "(\<And>x. x \<in> set xs \<Longrightarrow> f x = []) \<Longrightarrow> concat (map f xs) = []"
  by (induction xs) simp_all

lemma match_end: "concat (map (match_seq []) xs) = xs"
  by (induction xs) simp_all

lemma Lit_step: "match_seq (Lit l # as) (l @ r) = match_seq as r"
  by simp

lemma Lit_fail: "\<not> prefix l s \<Longrightarrow> match_seq (Lit l # as) s = []"
  by simp

lemma Space_Lit:
  assumes "l \<noteq> []" and "\<not> is_space (hd l)"
  shows "match_seq (SpaceStar # Lit l # as) s = match_seq (Lit l # as) (dropWhile is_space s)"
proof (induction s)
  case Nil
  show ?case by simp
next
  case (Cons c cs)
  show ?case
  proof (cases "is_space c")
    case True
    with assms have "\<not> prefix l (c # cs)"
      by (cases l) (auto simp: prefix_def)
    then have "match_seq (Lit l # as) (c # cs) = []"
      by (rule Lit_fail)
    moreover have "match_seq (SpaceStar # Lit l # as) (c # cs) =
        match_seq (SpaceStar # Lit l # as) cs @ match_seq (Lit l # as) (c # cs)"
      using True by simp
    ultimately show ?thesis
      using True Cons.IH by simp
  next
    case False
    then show ?thesis by simp
  qed
qed

lemma dropWhile_spaces:
  assumes "spaces ws" and "dropWhile is_space r = r"
  shows "dropWhile is_space (ws @ r) = r"
proof -
  have "dropWhile is_space (ws @ r) = dropWhile is_space r"
    using assms(1) by (intro dropWhile_append2) (simp add: spaces_def list_all_iff)
  with assms(2) show ?thesis by simp
qed

lemma space_star_hd: "\<exists>xs. space_star s = dropWhile is_space s # xs"
  by (induction s) auto

lemma lazy_skip:
  assumes "\<And>k. k < length m \<Longrightarrow> match_seq as (drop k (m @ u)) = []"
  shows "match_seq (AnyLazy # as) (m @ u) = match_seq (AnyLazy # as) u"
  using assms
proof (induction m)
  case Nil
  show ?case by simp
next
  case (Cons c m)
  have "match_seq as ((c # m) @ u) = []"
    using Cons.prems [of 0] by simp
  moreover have "match_seq (AnyLazy # as) (m @ u) = match_seq (AnyLazy # as) u"
  proof (rule Cons.IH)
    fix k assume "k < length m"
    then show "match_seq as (drop k (m @ u)) = []"
      using Cons.prems [of "Suc k"] by simp
  qed
  ultimately show ?case by simp
qed

lemma lazy_here:
  assumes "match_seq as u = x # xs"
  shows "\<exists>ys. match_seq (AnyLazy # as) u = x # ys"
  using assms by (cases u) simp_all

lemma closing_match:
  assumes "spaces ws2" and "dropWhile is_space post = post"
  shows "\<exists>xs. match_seq [Lit ''[END_PAGE_INFO]'', SpaceStar, Lit ''--%>'', SpaceStar]
               (''[END_PAGE_INFO]'' @ ws2 @ ''--%>'' @ ws3 @ post) = dropWhile is_space (ws3 @ post) # xs"
proof -
  have nsp: "\<not> is_space (hd ''--%>'')" by (simp add: is_space_def)
  have d: "dropWhile is_space (ws2 @ ''--%>'' @ ws3 @ post) = ''--%>'' @ ws3 @ post"
    by (rule dropWhile_spaces [OF assms(1)]) (simp add: is_space_def)
  have "match_seq [Lit ''[END_PAGE_INFO]'', SpaceStar, Lit ''--%>'', SpaceStar]
               (''[END_PAGE_INFO]'' @ ws2 @ ''--%>'' @ ws3 @ post) =
        match_seq [SpaceStar, Lit ''--%>'', SpaceStar] (ws2 @ ''--%>'' @ ws3 @ post)"
    by (rule Lit_step)
  also have "\<dots> = match_seq [Lit ''--%>'', SpaceStar] (''--%>'' @ ws3 @ post)"
    using Space_Lit [OF _ nsp, of "[SpaceStar]" "ws2 @ ''--%>'' @ ws3 @ post"] d by simp
  also have "\<dots> = match_seq [SpaceStar] (ws3 @ post)"
    by (rule Lit_step)
  also have "\<dots> = space_star (ws3 @ post)"
    by (simp add: match_end)
  finally show ?thesis
    using space_star_hd [of "ws3 @ post"] by simp
qed

lemma block_match:
  assumes "spaces ws1" and "spaces ws2" and "spaces ws3" and "dropWhile is_space post = post"
    and "\<And>k. k < length mid \<Longrightarrow>
           \<not> block_end_at (drop k (mid @ ''[END_PAGE_INFO]'' @ ws2 @ ''--%>'' @ ws3 @ post))"
  shows "\<exists>xs. match_seq PAGE_INFO_regex
               (''<%--'' @ ws1 @ ''[PAGE_INFO]'' @ mid @ ''[END_PAGE_INFO]'' @ ws2 @ ''--%>'' @ ws3 @ post)
             = post # xs"
proof -
  let ?cl = "[Lit ''[END_PAGE_INFO]'', SpaceStar, Lit ''--%>'', SpaceStar]"
  let ?u = "''[END_PAGE_INFO]'' @ ws2 @ ''--%>'' @ ws3 @ post"
  have nsp: "\<not> is_space (hd ''[PAGE_INFO]'')" by (simp add: is_space_def)
  have d: "dropWhile is_space (ws1 @ ''[PAGE_INFO]'' @ mid @ ?u) = ''[PAGE_INFO]'' @ mid @ ?u"
    by (rule dropWhile_spaces [OF assms(1)]) (simp add: is_space_def)
  have skip: "match_seq (AnyLazy # ?cl) (mid @ ?u) = match_seq (AnyLazy # ?cl) ?u"
  proof (rule lazy_skip)
    fix k assume "k < length mid"
    then have "\<not> block_end_at (drop k (mid @ ?u))" by (rule assms(5))
    then show "match_seq ?cl (drop k (mid @ ?u)) = []"
      using closing_sound by blast
  qed
  from closing_match [OF assms(2,4), of ws3] obtain xs
    where "match_seq ?cl ?u = dropWhile is_space (ws3 @ post) # xs" by blast
  moreover have "dropWhile is_space (ws3 @ post) = post"
    by (rule dropWhile_spaces [OF assms(3,4)])
  ultimately have "match_seq ?cl ?u = post # xs" by simp
  from lazy_here [OF this] obtain ys where ys: "match_seq (AnyLazy # ?cl) ?u = post # ys"
    by blast
  have "match_seq PAGE_INFO_regex (''<%--'' @ ws1 @ ''[PAGE_INFO]'' @ mid @ ?u) =
          match_seq (SpaceStar # Lit ''[PAGE_INFO]'' # AnyLazy # ?cl) (ws1 @ ''[PAGE_INFO]'' @ mid @ ?u)"
    unfolding PAGE_INFO_regex_def by (rule Lit_step)
  also have "\<dots> = match_seq (Lit ''[PAGE_INFO]'' # AnyLazy # ?cl) (''[PAGE_INFO]'' @ mid @ ?u)"
    using Space_Lit [OF _ nsp, of "AnyLazy # ?cl" "ws1 @ ''[PAGE_INFO]'' @ mid @ ?u"] d by simp
  also have "\<dots> = match_seq (AnyLazy # ?cl) (mid @ ?u)"
    by (rule Lit_step)
  also note skip
  also note ys
  finally show ?thesis by blast
qed

lemma remove_none:
  assumes "\<And>k. k \<le> length s \<Longrightarrow> match_seq r (drop k s) = []"
  shows "regex_remove_first r s = s"
  using assms
proof (induction s)
  case Nil
  then show ?case using Nil [of 0] by simp
next
  case (Cons c cs)
  have "match_seq r (c # cs) = []" using Cons.prems [of 0] by simp
  moreover have "regex_remove_first r cs = cs"
  proof (rule Cons.IH)
    fix k assume "k \<le> length cs"
    then show "match_seq r (drop k cs) = []" using Cons.prems [of "Suc k"] by simp
  qed
  ultimately show ?case by simp
qed

lemma remove_skip:
  assumes "\<And>k. k < length pre \<Longrightarrow> match_seq r (drop k (pre @ t)) = []"
  shows "regex_remove_first r (pre @ t) = pre @ regex_remove_first r t"
  using assms
proof (induction pre)
  case Nil
  show ?case by simp
next
  case (Cons c pre)
  have "match_seq r (c # pre @ t) = []" using Cons.prems [of 0] by simp
  moreover have "regex_remove_first r (pre @ t) = pre @ regex_remove_first r t"
  proof (rule Cons.IH)
    fix k assume "k < length pre"
    then show "match_seq r (drop k (pre @ t)) = []" using Cons.prems [of "Suc k"] by simp
  qed
  ultimately show ?case by simp
qed

lemma remove_here: "match_seq r t = x # xs \<Longrightarrow> regex_remove_first r t = x"
  by (cases t) simp_all


text \<open>
  Claim C10. The text that a live preview sends to the parse API is the text of
  the active document without its first page information block and the
  whitespace after it; the document itself stays as it is.

  When \<^verbatim>\<open>getPreview\<close> passes its checks, its one request carries as \<^verbatim>\<open>text\<close>
  the result of the replacement on the text of the document, and the document
  is unchanged afterwards. The replacement, compared with the block in words:
  a text in which no block starts anywhere is sent as it is; and when the
  document is \<open>pre\<close>, a block with the text \<open>mid\<close> inside and the whitespace
  \<open>ws3\<close> after it, and \<open>post\<close>, where \<open>post\<close> does not start with whitespace,
  no block starts inside \<open>pre\<close>, and no closing of a block starts inside
  \<open>mid\<close>, the text sent is \<open>pre\<close> followed by \<open>post\<close>.
\<close>

theorem preview_text_without_page_info:
  assumes "\<not> falsy host" and "activeDocument s = Some doc" and "doc \<noteq> []"
    and "getBot config botHost s = Some tbot"
  shows "(\<exists>before after.
            trace (getPreview config host botHost outcome s) =
              trace s @ before @
              [BotRequest tbot (preview_args config (regex_remove_first PAGE_INFO_regex doc))] @
              after
            \<and> \<not> list_ex is_request before \<and> \<not> list_ex is_request after)
       \<and> arg_text (preview_args config (regex_remove_first PAGE_INFO_regex doc)) =
           Some (regex_remove_first PAGE_INFO_regex doc)
       \<and> activeDocument (getPreview config host botHost outcome s) = Some doc
       \<and> ((\<forall>k \<le> length doc. \<not> block_at (drop k doc)) \<longrightarrow>
            regex_remove_first PAGE_INFO_regex doc = doc)
       \<and> (\<forall>pre ws1 mid ws2 ws3 post.
            doc = pre @ ''<%--'' @ ws1 @ ''[PAGE_INFO]'' @ mid @
                  ''[END_PAGE_INFO]'' @ ws2 @ ''--%>'' @ ws3 @ post
            \<and> spaces ws1 \<and> spaces ws2 \<and> spaces ws3 \<and> dropWhile is_space post = post
            \<and> (\<forall>k < length pre. \<not> block_at (drop k doc))
            \<and> (\<forall>k < length mid.
                  \<not> block_end_at
                      (drop k (mid @ ''[END_PAGE_INFO]'' @ ws2 @ ''--%>'' @ ws3 @ post)))
            \<longrightarrow> regex_remove_first PAGE_INFO_regex doc = pre @ post)"
proof (intro conjI allI impI)
  have d: "\<not> falsy (activeDocument s)"
    using assms(2,3) by (simp add: falsy_def)
  let ?pre = "(case previewCurrentPlanel s of
                None \<Rightarrow> [CreateWebviewPanel (length (panels s)) ''previewer'' ''WikitextPreviewer'']
              | Some q \<Rightarrow> []) @
              [SetHtml (fst (ensure_panel config s)) (showHtmlInfo ''Loading...'')]"
  let ?post = "after_request (fst (ensure_panel config s))
                 (getView_try config ''WikitextPreviewer'' (baseHref config host) outcome)"
  have "trace (getPreview config host botHost outcome s) =
          trace s @ ?pre @
          [BotRequest tbot (preview_args config (regex_remove_first PAGE_INFO_regex doc))] @ ?post"
    using assms(2)
    by (simp add: getPreview_run [OF assms(1) d assms(4)] getView_trace ensure_panel_trace
          target_def creation_def js_str_def)
  moreover have "\<not> list_ex is_request ?pre"
    by (simp add: is_request_def split: option.splits)
  moreover have "\<not> list_ex is_request ?post"
    by (rule after_request_no_request)
  ultimately show "\<exists>before after.
            trace (getPreview config host botHost outcome s) =
              trace s @ before @
              [BotRequest tbot (preview_args config (regex_remove_first PAGE_INFO_regex doc))] @
              after
            \<and> \<not> list_ex is_request before \<and> \<not> list_ex is_request after"
    by blast
next
  show "arg_text (preview_args config (regex_remove_first PAGE_INFO_regex doc)) =
           Some (regex_remove_first PAGE_INFO_regex doc)"
    by (simp add: preview_args_def)
next
  show "activeDocument (getPreview config host botHost outcome s) = Some doc"
    using assms(2) by (simp add: getPreview_doc)
next
  assume none: "\<forall>k \<le> length doc. \<not> block_at (drop k doc)"
  show "regex_remove_first PAGE_INFO_regex doc = doc"
  proof (rule remove_none)
    fix k assume "k \<le> length doc"
    with none have "\<not> block_at (drop k doc)" by blast
    then show "match_seq PAGE_INFO_regex (drop k doc) = []"
      using regex_sound by blast
  qed
next
  fix pre ws1 mid ws2 ws3 post
  assume h: "doc = pre @ ''<%--'' @ ws1 @ ''[PAGE_INFO]'' @ mid @
                  ''[END_PAGE_INFO]'' @ ws2 @ ''--%>'' @ ws3 @ post
            \<and> spaces ws1 \<and> spaces ws2 \<and> spaces ws3 \<and> dropWhile is_space post = post
            \<and> (\<forall>k < length pre. \<not> block_at (drop k doc))
            \<and> (\<forall>k < length mid.
                  \<not> block_end_at
                      (drop k (mid @ ''[END_PAGE_INFO]'' @ ws2 @ ''--%>'' @ ws3 @ post)))"
  let ?t = "''<%--'' @ ws1 @ ''[PAGE_INFO]'' @ mid @
              ''[END_PAGE_INFO]'' @ ws2 @ ''--%>'' @ ws3 @ post"
  from h have doc: "doc = pre @ ?t" by blast
  from h have sp: "spaces ws1" "spaces ws2" "spaces ws3" "dropWhile is_space post = post"
    by blast+
  from h have first: "\<And>k. k < length pre \<Longrightarrow> \<not> block_at (drop k doc)" by blast
  from h have lazy: "\<And>k. k < length mid \<Longrightarrow>
        \<not> block_end_at (drop k (mid @ ''[END_PAGE_INFO]'' @ ws2 @ ''--%>'' @ ws3 @ post))"
    by blast
  from block_match [OF sp lazy] obtain xs where "match_seq PAGE_INFO_regex ?t = post # xs"
    by blast
  then have here: "regex_remove_first PAGE_INFO_regex ?t = post"
    by (rule remove_here)
  have "regex_remove_first PAGE_INFO_regex (pre @ ?t) = pre @ regex_remove_first PAGE_INFO_regex ?t"
  proof (rule remove_skip)
    fix k assume "k < length pre"
    then have "\<not> block_at (drop k doc)" by (rule first)
    then show "match_seq PAGE_INFO_regex (drop k (pre @ ?t)) = []"
      unfolding doc using regex_sound by blast
  qed
  with here show "regex_remove_first PAGE_INFO_regex doc = pre @ post"
    unfolding doc by simp
qed

theorem preview_text_without_page_info_witness:
  "regex_remove_first PAGE_INFO_regex ''<%-- [PAGE_INFO] t [END_PAGE_INFO] --%> Hi'' = ''Hi''
   \<and> arg_text (preview_args example_config
                 (regex_remove_first PAGE_INFO_regex ''<%-- [PAGE_INFO] t [END_PAGE_INFO] --%> Hi'')) =
       Some ''Hi''
   \<and> activeDocument
        (getPreview example_config (Some ''wiki.example'') (Some ''wiki.example'')
           (Resolved categories_result) editing_state) =
       Some ''<%-- [PAGE_INFO] t [END_PAGE_INFO] --%> Hi''"
proof -
  have h: "\<not> falsy (Some ''wiki.example'')"
    by (simp add: falsy_def)
  have doc: "activeDocument editing_state = Some ''<%-- [PAGE_INFO] t [END_PAGE_INFO] --%> Hi''"
    by (simp add: editing_state_def initial_state_def)
  have ne: "''<%-- [PAGE_INFO] t [END_PAGE_INFO] --%> Hi'' \<noteq> []"
    by simp
  have b: "getBot example_config (Some ''wiki.example'') editing_state = Some example_bot"
    by (simp add: getBot_def editing_state_def initial_state_def example_config_def
          example_bot_def falsy_def js_str_def)
  note th = preview_text_without_page_info [OF h doc ne b, of "Resolved categories_result"]
  have sp: "spaces '' ''" and post: "dropWhile is_space ''Hi'' = ''Hi''"
    by (simp_all add: spaces_def is_space_def)
  have lazy: "\<forall>k < length '' t ''.
          \<not> block_end_at (drop k ('' t '' @ ''[END_PAGE_INFO]'' @ '' '' @ ''--%>'' @ '' '' @ ''Hi''))"
  proof (intro allI impI)
    fix k :: nat assume "k < length '' t ''"
    then consider "k = 0" | "k = 1" | "k = 2" by force
    then show "\<not> block_end_at (drop k ('' t '' @ ''[END_PAGE_INFO]'' @ '' '' @ ''--%>'' @ '' '' @ ''Hi''))"
      by cases (simp_all add: block_end_at_def)
  qed
  have r: "regex_remove_first PAGE_INFO_regex ''<%-- [PAGE_INFO] t [END_PAGE_INFO] --%> Hi'' = [] @ ''Hi''"
    using th [THEN conjunct2, THEN conjunct2, THEN conjunct2, THEN conjunct2, rule_format,
              of "[]" "'' ''" "'' t ''" "'' ''" "'' ''" "''Hi''"]
      sp post lazy
    by simp
  from th have "arg_text (preview_args example_config
                 (regex_remove_first PAGE_INFO_regex ''<%-- [PAGE_INFO] t [END_PAGE_INFO] --%> Hi'')) =
       Some (regex_remove_first PAGE_INFO_regex ''<%-- [PAGE_INFO] t [END_PAGE_INFO] --%> Hi'')"
    and "activeDocument
        (getPreview example_config (Some ''wiki.example'') (Some ''wiki.example'')
           (Resolved categories_result) editing_state) =
       Some ''<%-- [PAGE_INFO] t [END_PAGE_INFO] --%> Hi''"
    by blast+
  with r show ?thesis by simp
qed

end
